theory Spec2Isabelle
  imports Complex_Main
begin

section \<open>Python exceptions and the random source\<close>

text \<open>
  Every \<^verbatim>\<open>raise\<close>, failed \<^verbatim>\<open>assert\<close> and library exception of the source is a value
  \<open>Inl e\<close> of a sum type. \<open>ConfigurationError\<close> is the exception the specification names;
  no class of that name exists in the source and no function below returns it.
\<close>

datatype py_error =
    IndexError | ValueError | AssertionError | TypeError | KeyError | StopIteration
  | ConfigurationError

text \<open>Sequencing of computations that may raise: the first exception raised is the result.\<close>

definition bindE :: "py_error + 'a \<Rightarrow> ('a \<Rightarrow> py_error + 'b) \<Rightarrow> py_error + 'b" where
  "bindE m f = (case m of Inl e \<Rightarrow> Inl e | Inr x \<Rightarrow> f x)"

text \<open>
  The process-wide generators of \<^verbatim>\<open>random\<close> and \<^verbatim>\<open>numpy.random\<close> are made explicit as
  one stream of raw draws; every function that draws returns the rest of the stream.
  A bounded draw reduces the raw draw modulo the size of the range, so each value of the
  range is the result of some stream.
\<close>

type_synonym rng = "nat \<Rightarrow> nat"

definition rng_drop :: "nat \<Rightarrow> rng \<Rightarrow> rng" where
  "rng_drop k r = (\<lambda>i. r (i + k))"

text \<open>\<^verbatim>\<open>np.random.choice(a, size, replace=True)\<close> on a one-dimensional \<open>a\<close>.\<close>

definition np_random_choice :: "'a list \<Rightarrow> nat \<Rightarrow> rng \<Rightarrow> py_error + ('a list \<times> rng)" where
  "np_random_choice a n r =
     (if a = [] \<and> n \<noteq> 0 then Inl ValueError
      else Inr (map (\<lambda>k. a ! (r k mod length a)) [0..<n], rng_drop n r))"

section \<open>Python and numpy helpers\<close>

text \<open>
  Index normalisation of a slice bound on a sequence of length \<open>n\<close> (step 1): a negative
  bound counts from the end, and every bound is clipped to \<open>[0, n]\<close>.
\<close>

definition py_clamp :: "int \<Rightarrow> nat \<Rightarrow> nat" where
  "py_clamp i n = (if i < 0 then nat (max 0 (i + int n)) else min (nat i) n)"

text \<open>Indexing a list by an integer: negative indices count from the end.\<close>

definition py_index :: "'a list \<Rightarrow> int \<Rightarrow> py_error + nat" where
  "py_index xs i =
     (let n = int (length xs); j = (if i < 0 then n + i else i)
      in if 0 \<le> j \<and> j < n then Inr (nat j) else Inl IndexError)"

text \<open>\<^verbatim>\<open>del xs[j]\<close> at a normalised index.\<close>

definition py_del :: "'a list \<Rightarrow> nat \<Rightarrow> 'a list" where
  "py_del xs j = take j xs @ drop (Suc j) xs"

text \<open>
  \<^verbatim>\<open>np.round\<close> rounds halves to the even neighbour. Floating-point factors are taken as
  rationals; on the dyadic factors the repository uses (1, 0.5, 0.25, ...) the
  floating-point product is exact.
\<close>

definition np_round :: "rat \<Rightarrow> int" where
  "np_round x =
     (let f = \<lfloor>x\<rfloor>; d = x - of_int f
      in if d < 1 / 2 then f else if 1 / 2 < d then f + 1 else if even f then f else f + 1)"

section \<open>numpy arrays\<close>

text \<open>
  An array is its shape and its elements by index (one index per axis). One-dimensional
  integer arrays (shapes, window starts, pad widths) are integer lists. Image intensities
  are only copied, never computed with, so the element type is left open.
\<close>

record 'a ndarray =
  shape :: "nat list"
  item :: "nat list \<Rightarrow> 'a"

text \<open>
  Broadcasting of two one-dimensional arrays: equal lengths, or one of them of length 1;
  anything else raises \<^verbatim>\<open>ValueError\<close>. A scalar operand behaves as a one-element array.
\<close>

definition np_broadcast :: "int list \<Rightarrow> int list \<Rightarrow> py_error + (int list \<times> int list)" where
  "np_broadcast xs ys =
     (if length xs = length ys then Inr (xs, ys)
      else if length xs = 1 then Inr (replicate (length ys) (hd xs), ys)
      else if length ys = 1 then Inr (xs, replicate (length xs) (hd ys))
      else Inl ValueError)"

definition np_op2 :: "(int \<Rightarrow> int \<Rightarrow> int) \<Rightarrow> int list \<Rightarrow> int list \<Rightarrow> py_error + int list" where
  "np_op2 f xs ys = bindE (np_broadcast xs ys) (\<lambda>(a, b). Inr (map2 f a b))"

text \<open>
  A slice \<^verbatim>\<open>slice(s, e)\<close> on an axis of length \<open>n\<close>: the first index kept and the number
  of indices kept.
\<close>

definition py_slice :: "nat \<Rightarrow> int \<times> int \<Rightarrow> nat \<times> nat" where
  "py_slice n se =
     (let lo = py_clamp (fst se) n; hi = py_clamp (snd se) n in (lo, hi - lo))"

text \<open>
  \<^verbatim>\<open>a[idx]\<close> for a tuple of slices, one per leading axis; the axes beyond the tuple are kept
  whole, and more slices than axes raise \<^verbatim>\<open>IndexError\<close>.
\<close>

definition np_getitem :: "'a ndarray \<Rightarrow> (int \<times> int) list \<Rightarrow> py_error + 'a ndarray" where
  "np_getitem a idx =
     (if length (shape a) < length idx then Inl IndexError
      else let k = length idx; b = map2 py_slice (shape a) idx
           in Inr \<lparr>shape = map snd b @ drop k (shape a),
                   item = (\<lambda>i. item a (map2 (+) (map fst b) (take k i) @ drop k i))\<rparr>)"

text \<open>\<^verbatim>\<open>a[i]\<close> for an integer \<open>i \<ge> 0\<close>: the sub-array at position \<open>i\<close> of the first axis.\<close>

definition np_getitem_int :: "'a ndarray \<Rightarrow> nat \<Rightarrow> py_error + 'a ndarray" where
  "np_getitem_int a i =
     (case shape a of
        [] \<Rightarrow> Inl IndexError
      | n # ns \<Rightarrow> if i < n then Inr \<lparr>shape = ns, item = (\<lambda>j. item a (i # j))\<rparr>
                  else Inl IndexError)"

text \<open>
  \<^verbatim>\<open>np.pad(a, pad, 'constant', constant_values=cval)\<close>: one pair (before, after) per axis,
  or a single pair for all axes; a negative width or another number of pairs raises
  \<^verbatim>\<open>ValueError\<close>.
\<close>

definition np_pad :: "'a ndarray \<Rightarrow> (int \<times> int) list \<Rightarrow> 'a \<Rightarrow> py_error + 'a ndarray" where
  "np_pad a pad cval =
     (let nd = length (shape a)
      in if list_ex (\<lambda>p. fst p < 0 \<or> snd p < 0) pad then Inl ValueError
         else if length pad \<noteq> nd \<and> length pad \<noteq> 1 then Inl ValueError
         else let w = (if length pad = nd then pad else replicate nd (hd pad));
                  pre = map (\<lambda>p. nat (fst p)) w;
                  post = map (\<lambda>p. nat (snd p)) w
              in Inr \<lparr>shape = map2 (+) (map2 (+) pre (shape a)) post,
                      item = (\<lambda>i. if list_all2 (\<lambda>bn j. fst bn \<le> j \<and> j < fst bn + snd bn)
                                        (zip pre (shape a)) i
                                   then item a (map2 (-) i pre) else cval)\<rparr>)"

text \<open>
  \<^verbatim>\<open>np.array(xs)\<close> of a list of arrays: the arrays stacked along a new first axis; arrays of
  different shapes raise \<^verbatim>\<open>ValueError\<close>.
\<close>

definition np_array :: "('a::zero) ndarray list \<Rightarrow> py_error + 'a ndarray" where
  "np_array xs =
     (case xs of
        [] \<Rightarrow> Inr \<lparr>shape = [0], item = (\<lambda>i. 0)\<rparr>
      | x # _ \<Rightarrow>
          if list_all (\<lambda>y. shape y = shape x) xs
          then Inr \<lparr>shape = length xs # shape x,
                    item = (\<lambda>i. case i of [] \<Rightarrow> 0 | k # j \<Rightarrow> item (xs ! k) j)\<rparr>
          else Inl ValueError)"

text \<open>\<^verbatim>\<open>np.argwhere(msk[l] == 1)\<close>: the indices, in row-major order, of the ones of channel \<open>l\<close>.\<close>

definition argwhere_one :: "('b::one) ndarray \<Rightarrow> nat \<Rightarrow> nat list list" where
  "argwhere_one msk l =
     filter (\<lambda>i. item msk (l # i) = 1) (product_lists (map (\<lambda>n. [0..<n]) (tl (shape msk))))"

text \<open>
  \<^verbatim>\<open>np.random.randint(low, high)\<close> on arrays: one draw per element of the broadcast
  bounds, in \<open>[low, high)\<close>; \<^verbatim>\<open>ValueError\<close> when some \<open>low \<ge> high\<close>.
\<close>

definition np_random_randint :: "int list \<Rightarrow> int list \<Rightarrow> rng \<Rightarrow> py_error + (int list \<times> rng)" where
  "np_random_randint low high r =
     bindE (np_broadcast low high) (\<lambda>(lo, hi).
       if list_ex (\<lambda>lh. snd lh \<le> fst lh) (zip lo hi) then Inl ValueError
       else Inr (map (\<lambda>(k, l, h). l + int (r k mod nat (h - l)))
                   (zip [0..<length lo] (zip lo hi)),
                 rng_drop (length lo) r))"

text \<open>
  \<^verbatim>\<open>random.random()\<close>: a multiple of \<open>2\<^sup>-\<^sup>5\<^sup>3\<close> in \<open>[0, 1)\<close>. Floating-point numbers are
  taken as rationals.
\<close>

definition random_random :: "rng \<Rightarrow> rat \<times> rng" where
  "random_random r = (of_nat (r 0 mod 2 ^ 53) / 2 ^ 53, rng_drop 1 r)"

section \<open>Crop and pad (\<^verbatim>\<open>semseg_batchgen.py\<close>)\<close>

text \<open>
  The tuple \<^verbatim>\<open>[slice(0,img.shape[0])] + [slice(s, e) for s, e in zip(start, end)]\<close>
  (\<open>stop\<close> is the source's \<^verbatim>\<open>end\<close>).
\<close>

definition crop_idx :: "nat \<Rightarrow> int list \<Rightarrow> int list \<Rightarrow> (int \<times> int) list" where
  "crop_idx c start stop = (0, int c) # zip start stop"

text \<open>
  The value of \<^verbatim>\<open>start\<close> in \<^verbatim>\<open>random_crop\<close>, from the spatial shape of the image: the
  assertion on the number of axes, then one draw per axis.
\<close>

definition random_crop_start :: "int list \<Rightarrow> int list \<Rightarrow> rng \<Rightarrow> py_error + (int list \<times> rng)" where
  "random_crop_start img_shape crop_shape r =
     (if length img_shape \<noteq> length crop_shape then Inl AssertionError
      else bindE (np_op2 (-) img_shape crop_shape) (\<lambda>d.
             np_random_randint [0] (map (max 1) d) r))"

definition random_crop ::
  "'a ndarray \<Rightarrow> 'b ndarray \<Rightarrow> int list \<Rightarrow> rng
     \<Rightarrow> py_error + (('a ndarray \<times> 'b ndarray) \<times> rng)" where
  "random_crop img msk crop_shape r =
     bindE (random_crop_start (map int (tl (shape img))) crop_shape r) (\<lambda>(start, r').
     bindE (np_op2 (+) start crop_shape) (\<lambda>stop.
       case shape img of
         [] \<Rightarrow> Inl IndexError
       | c # _ \<Rightarrow>
           bindE (np_getitem img (crop_idx c start stop)) (\<lambda>crop_img.
           bindE (np_getitem msk (crop_idx c start stop)) (\<lambda>crop_msk.
             Inr ((crop_img, crop_msk), r')))))"

text \<open>The value of \<^verbatim>\<open>start\<close> in \<^verbatim>\<open>located_crop\<close>.\<close>

definition located_crop_start ::
  "int list \<Rightarrow> int list \<Rightarrow> int list \<Rightarrow> int list \<Rightarrow> rng \<Rightarrow> py_error + (int list \<times> rng)" where
  "located_crop_start img_shape location crop_shape margin r =
     bindE (np_op2 (-) location crop_shape) (\<lambda>a.
     bindE (np_op2 (+) a margin) (\<lambda>b.
       let lower_bound = map (max 0) b
       in bindE (np_op2 (-) location margin) (\<lambda>lm.
          bindE (np_op2 (-) img_shape crop_shape) (\<lambda>ic.
          bindE (np_op2 min lm ic) (\<lambda>m.
          bindE (np_op2 max (map (\<lambda>x. x + 1) lower_bound) m) (\<lambda>higher_bound.
          bindE (np_op2 max (map (\<lambda>x. x + 1) lower_bound) higher_bound) (\<lambda>high.
            np_random_randint lower_bound high r)))))))"

definition located_crop ::
  "'a ndarray \<Rightarrow> 'b ndarray \<Rightarrow> int list \<Rightarrow> int list \<Rightarrow> int list \<Rightarrow> rng
     \<Rightarrow> py_error + (('a ndarray \<times> 'b ndarray) \<times> rng)" where
  "located_crop img msk location crop_shape margin r =
     bindE (located_crop_start (map int (tl (shape img))) location crop_shape margin r)
       (\<lambda>(start, r').
     bindE (np_op2 (+) start crop_shape) (\<lambda>stop.
       case shape img of
         [] \<Rightarrow> Inl IndexError
       | c # _ \<Rightarrow>
           bindE (np_getitem img (crop_idx c start stop)) (\<lambda>crop_img.
           bindE (np_getitem msk (crop_idx c start stop)) (\<lambda>crop_msk.
             Inr ((crop_img, crop_msk), r')))))"

text \<open>
  The pad widths of \<^verbatim>\<open>centered_pad\<close>: \<^verbatim>\<open>x * (x > 0)\<close> keeps a positive \<open>x\<close> and replaces
  any other by 0; \<^verbatim>\<open>np.stack\<close> needs both columns of the same length.
\<close>

definition centered_pad_widths :: "int list \<Rightarrow> int list \<Rightarrow> py_error + (int \<times> int) list" where
  "centered_pad_widths img_shape final_size =
     bindE (np_op2 (-) final_size img_shape) (\<lambda>d.
       let start = map (\<lambda>x. x div 2) d;
           start = map (\<lambda>x. x * (if 0 < x then 1 else 0)) start
       in bindE (np_op2 (+) img_shape start) (\<lambda>s.
          bindE (np_op2 (-) final_size s) (\<lambda>e.
            let stop = map (\<lambda>x. x * (if 0 < x then 1 else 0)) e
            in if length start \<noteq> length stop then Inl ValueError
               else Inr ((0, 0) # zip start stop))))"

definition centered_pad ::
  "('a::zero) ndarray \<Rightarrow> int list \<Rightarrow> ('b::zero) ndarray option
     \<Rightarrow> py_error + ('a ndarray \<times> 'b ndarray option)" where
  "centered_pad img final_size msk =
     bindE (centered_pad_widths (map int (tl (shape img))) final_size) (\<lambda>pad.
     bindE (np_pad img pad 0) (\<lambda>pad_img.
       case msk of
         None \<Rightarrow> Inr (pad_img, None)
       | Some m \<Rightarrow> bindE (np_pad m pad 0) (\<lambda>pad_msk. Inr (pad_img, Some pad_msk))))"

text \<open>\<^verbatim>\<open>centered_pad\<close> of \<^verbatim>\<open>utils.py\<close>: the mask is padded before the result is chosen.\<close>

definition utils_centered_pad ::
  "('a::zero) ndarray \<Rightarrow> int list \<Rightarrow> ('b::zero) ndarray option
     \<Rightarrow> py_error + ('a ndarray \<times> 'b ndarray option)" where
  "utils_centered_pad img final_size msk =
     bindE (centered_pad_widths (map int (tl (shape img))) final_size) (\<lambda>pad.
     bindE (np_pad img pad 0) (\<lambda>pad_img.
     bindE (case msk of None \<Rightarrow> Inr None
            | Some m \<Rightarrow> bindE (np_pad m pad 0) (\<lambda>pad_msk. Inr (Some pad_msk))) (\<lambda>pad_msk.
       Inr (pad_img, pad_msk))))"

definition foreground_crop ::
  "'a ndarray \<Rightarrow> ('b::one) ndarray \<Rightarrow> int list \<Rightarrow> int list \<Rightarrow> rng
     \<Rightarrow> py_error + (('a ndarray \<times> 'b ndarray) \<times> rng)" where
  "foreground_crop img msk final_size fg_margin r =
     (case shape msk of
        [] \<Rightarrow> Inl IndexError
      | c # sp \<Rightarrow>
          if c = 0 then Inl ValueError
          else let rnd_label = r 0 mod c;
                   r1 = rng_drop 1 r;
                   locations = argwhere_one msk rnd_label
               in if length locations * length sp = 0
                  then random_crop img msk final_size r1
                  else let center = locations ! (r1 0 mod length locations);
                           r2 = rng_drop 1 r1
                       in located_crop img msk (map int center) final_size fg_margin r2)"

text \<open>The defaults \<^verbatim>\<open>fg_rate=0.33\<close> and \<^verbatim>\<open>fg_margin=np.zeros(3)\<close>.\<close>

definition default_fg_rate :: rat where
  "default_fg_rate = 33 / 100"

definition default_fg_margin :: "int list" where
  "default_fg_margin = [0, 0, 0]"

text \<open>
  The body of \<^verbatim>\<open>random_crop_pad\<close> for an image that is not a list.
  \<^verbatim>\<open>np.any(d) != 0\<close> is true exactly when some element of \<open>d\<close> is not 0.
\<close>

definition random_crop_pad_single ::
  "('a::zero) ndarray \<Rightarrow> ('b::{zero,one}) ndarray \<Rightarrow> int list \<Rightarrow> rat \<Rightarrow> int list \<Rightarrow> rng
     \<Rightarrow> py_error + (('a ndarray \<times> 'b ndarray) \<times> rng)" where
  "random_crop_pad_single img msk final_size fg_rate fg_margin r =
     (case random_random r of (force_fg, r1) \<Rightarrow>
        bindE (if 0 < fg_rate \<and> force_fg < fg_rate
               then foreground_crop img msk final_size fg_margin r1
               else random_crop img msk final_size r1) (\<lambda>((img', msk'), r2).
        bindE (np_op2 (-) (map int (tl (shape img'))) final_size) (\<lambda>d.
          if list_ex (\<lambda>x. x \<noteq> 0) d
          then bindE (centered_pad img' final_size (Some msk')) (\<lambda>(pad_img, pad_msk).
                 case pad_msk of
                   None \<Rightarrow> Inl TypeError
                 | Some m \<Rightarrow> Inr ((pad_img, m), r2))
          else Inr ((img', msk'), r2))))"

text \<open>
  The argument of \<^verbatim>\<open>random_crop_pad\<close> is an array or a list of arrays
  (\<^verbatim>\<open>type(img)==list\<close>). A mask of the other kind than the image fails in the first
  operation on it; the model gives \<^verbatim>\<open>TypeError\<close>.
\<close>

datatype 'a sample = Arr "'a ndarray" | ArrList "'a ndarray list"

text \<open>\<^verbatim>\<open>msk[i]\<close> in the batch loop.\<close>

definition sample_getitem :: "'a sample \<Rightarrow> nat \<Rightarrow> py_error + 'a ndarray" where
  "sample_getitem s i =
     (case s of
        Arr a \<Rightarrow> np_getitem_int a i
      | ArrList xs \<Rightarrow> if i < length xs then Inr (xs ! i) else Inl IndexError)"

text \<open>
  The loop of the batch branch, from index \<open>i\<close> on. The recursive call
  \<^verbatim>\<open>random_crop_pad(img[i], msk[i], final_size)\<close> passes neither \<^verbatim>\<open>fg_rate\<close> nor
  \<^verbatim>\<open>fg_margin\<close>, and its image is an array, so it is the single-sample body at the defaults.
\<close>

fun random_crop_pad_loop ::
  "('a::zero) ndarray list \<Rightarrow> ('b::{zero,one}) sample \<Rightarrow> int list \<Rightarrow> nat \<Rightarrow> rng
     \<Rightarrow> py_error + (('a ndarray list \<times> 'b ndarray list) \<times> rng)" where
  "random_crop_pad_loop [] msk final_size i r = Inr (([], []), r)"
| "random_crop_pad_loop (im # ims) msk final_size i r =
     bindE (sample_getitem msk i) (\<lambda>m.
     bindE (random_crop_pad_single im m final_size default_fg_rate default_fg_margin r)
       (\<lambda>((img', msk'), r').
     bindE (random_crop_pad_loop ims msk final_size (Suc i) r') (\<lambda>((imgs, msks), r'').
       Inr ((img' # imgs, msk' # msks), r''))))"

definition random_crop_pad ::
  "('a::zero) sample \<Rightarrow> ('b::{zero,one}) sample \<Rightarrow> int list \<Rightarrow> rat \<Rightarrow> int list \<Rightarrow> rng
     \<Rightarrow> py_error + (('a ndarray \<times> 'b ndarray) \<times> rng)" where
  "random_crop_pad img msk final_size fg_rate fg_margin r =
     (case img of
        ArrList xs \<Rightarrow>
          bindE (random_crop_pad_loop xs msk final_size 0 r) (\<lambda>((imgs, msks), r').
          bindE (np_array imgs) (\<lambda>a.
          bindE (np_array msks) (\<lambda>b. Inr ((a, b), r'))))
      | Arr a \<Rightarrow>
          (case msk of
             Arr m \<Rightarrow> random_crop_pad_single a m final_size fg_rate fg_margin r
           | ArrList _ \<Rightarrow> Inl TypeError))"

text \<open>
  \<^verbatim>\<open>RandomCropAndPadTransform\<close>: the two configured attributes that reach the crop, and
  the call on the values stored under the data and label keys.
\<close>

record transform =
  crop_size :: "int list"
  fg_rate :: rat

definition RandomCropAndPadTransform_call ::
  "transform \<Rightarrow> ('a::zero) sample \<Rightarrow> ('b::{zero,one}) sample \<Rightarrow> rng
     \<Rightarrow> py_error + (('a ndarray \<times> 'b ndarray) \<times> rng)" where
  "RandomCropAndPadTransform_call t data seg r =
     random_crop_pad data seg (crop_size t) (fg_rate t) default_fg_margin r"

section \<open>Reading folds from a table (\<^verbatim>\<open>utils.py\<close>)\<close>

text \<open>
  A row of the fold table: column 0 is the file name (\<^verbatim>\<open>iloc[:,0]\<close>), then the columns
  \<^verbatim>\<open>fold\<close> and \<^verbatim>\<open>hold_out\<close>. A data frame is the list of its rows in row order.
\<close>

record 'f row =
  filename :: 'f
  fold_col :: int
  hold_out :: int

type_synonym 'f dataframe = "'f row list"

text \<open>\<^verbatim>\<open>df['fold'].max()\<close> of a non-empty frame.\<close>

fun fold_max :: "'f dataframe \<Rightarrow> int" where
  "fold_max [] = 0"
| "fold_max [r] = fold_col r"
| "fold_max (r # rs) = max (fold_col r) (fold_max rs)"

definition get_folds_df :: "'f dataframe \<Rightarrow> 'f list list" where
  "get_folds_df df =
     (if df = [] then []
      else let nbof_folds = fold_max df + 1
           in map (\<lambda>i. map filename (filter (\<lambda>r. fold_col r = int i) df))
                  [0..<nat nbof_folds])"

definition get_folds_train_test_df :: "'f dataframe \<Rightarrow> 'f list list \<times> 'f list" where
  "get_folds_train_test_df df =
     (let train_folds = get_folds_df (filter (\<lambda>r. hold_out r = 0) df);
          test_folds = get_folds_df (filter (\<lambda>r. hold_out r = 1) df)
      in (train_folds, concat test_folds))"

section \<open>The batch loader (\<^verbatim>\<open>BatchGenDataLoader\<close>)\<close>

record 'f loader =
  batch_size :: nat
  nbof_steps :: int
  val_imgs :: "'f list"
  train_imgs :: "'f list"
  train :: bool
  fnames :: "'f list"
  number_of_threads_in_multithreaded :: int
  indices :: "nat list"
  current_position :: int
  was_initialized :: bool

text \<open>
  The constructor. \<open>folds_csv\<close> is the parsed table when a path is given, \<open>all_set\<close> is
  what \<^verbatim>\<open>os.listdir(img_dir)\<close> returns. One data item is built per file name, so
  \<^verbatim>\<open>np.arange(len(self._data))\<close> is \<open>[0..<length fnames]\<close>.
\<close>

definition BatchGenDataLoader_init ::
  "'f list \<Rightarrow> nat \<Rightarrow> int \<Rightarrow> 'f dataframe option \<Rightarrow> int \<Rightarrow> rat \<Rightarrow> bool \<Rightarrow> int
     \<Rightarrow> py_error + 'f loader" where
  "BatchGenDataLoader_init all_set bs steps folds_csv fold_idx val_split tr num_threads_in_mt =
     (let split =
            (case folds_csv of
               Some df \<Rightarrow>
                 (let trainset = fst (get_folds_train_test_df df)
                  in case py_index trainset fold_idx of
                       Inl e \<Rightarrow> Inl e
                     | Inr j \<Rightarrow> Inr (concat (py_del trainset j), trainset ! j))
             | None \<Rightarrow>
                 (let v = np_round (val_split * of_nat (length all_set));
                      v = (if v = 0 then 1 else v);
                      k = py_clamp v (length all_set)
                  in Inr (drop k all_set, take k all_set)))
      in case split of
           Inl e \<Rightarrow> Inl e
         | Inr (tr_imgs, va_imgs) \<Rightarrow>
             (let names = (if tr then tr_imgs else va_imgs)
              in Inr \<lparr>batch_size = bs, nbof_steps = steps, val_imgs = va_imgs,
                      train_imgs = tr_imgs, train = tr, fnames = names,
                      number_of_threads_in_multithreaded = num_threads_in_mt,
                      indices = [0..<length names], current_position = 0,
                      was_initialized = False\<rparr>))"

definition reset :: "'f loader \<Rightarrow> 'f loader" where
  "reset l = l\<lparr>current_position := 0, was_initialized := True\<rparr>"

text \<open>
  \<^verbatim>\<open>get_indices\<close> returns the indices or the exception raised, together with the loader
  as the call leaves it (the flag is cleared before \<^verbatim>\<open>StopIteration\<close> is raised) and the
  rest of the random stream. The indices are drawn before the step counter is tested.
\<close>

definition get_indices :: "'f loader \<Rightarrow> rng \<Rightarrow> (py_error + nat list) \<times> 'f loader \<times> rng" where
  "get_indices l r =
     (let l1 = (if \<not> was_initialized l then reset l else l)
      in case np_random_choice (indices l1) (batch_size l1) r of
           Inl e \<Rightarrow> (Inl e, l1, r)
         | Inr (idx, r') \<Rightarrow>
             if current_position l1 < nbof_steps l1
             then (Inr idx,
                   l1\<lparr>current_position :=
                        current_position l1 + number_of_threads_in_multithreaded l1\<rparr>, r')
             else (Inl StopIteration, l1\<lparr>was_initialized := False\<rparr>, r'))"

text \<open>The results of \<open>n\<close> successive calls of \<^verbatim>\<open>get_indices\<close> on the same loader object.\<close>

fun calls :: "nat \<Rightarrow> 'f loader \<Rightarrow> rng \<Rightarrow> (py_error + nat list) list \<times> 'f loader \<times> rng" where
  "calls 0 l r = ([], l, r)"
| "calls (Suc n) l r =
     (case get_indices l r of
        (res, l', r') \<Rightarrow> (case calls n l' r' of (rs, l'', r'') \<Rightarrow> (res # rs, l'', r'')))"

text \<open>A successful call: \<^verbatim>\<open>batch_size\<close> indices, each an index of the data.\<close>

definition is_batch :: "'f loader \<Rightarrow> py_error + nat list \<Rightarrow> bool" where
  "is_batch l res =
     (case res of
        Inl e \<Rightarrow> False
      | Inr idx \<Rightarrow> length idx = batch_size l \<and> list_all (\<lambda>i. i \<in> set (indices l)) idx)"

text \<open>A loader as the constructor leaves it, over three files, for ten steps of four indices.\<close>

definition loader_example :: "nat loader" where
  "loader_example =
     \<lparr>batch_size = 4, nbof_steps = 10, val_imgs = [], train_imgs = [7, 8, 9], train = True,
      fnames = [7, 8, 9], number_of_threads_in_multithreaded = 1, indices = [0, 1, 2],
      current_position = 0, was_initialized = False\<rparr>"

text \<open>The same loader after ten successful calls: initialised, step counter at ten.\<close>

definition loader_at_end :: "nat loader" where
  "loader_at_end = loader_example\<lparr>current_position := 10, was_initialized := True\<rparr>"

text \<open>
  A table of 100 rows with distinct file names, split evenly into the folds 0 to 4, no row
  held out; and a table of three rows over the folds 0 and 1 with one row held out.
\<close>

definition table100 :: "nat dataframe" where
  "table100 =
     map (\<lambda>i. \<lparr>filename = i, fold_col = int (i mod 5), hold_out = 0\<rparr>) [0..<100]"

definition table3 :: "nat dataframe" where
  "table3 =
     [\<lparr>filename = 10, fold_col = 0, hold_out = 0\<rparr>,
      \<lparr>filename = 11, fold_col = 1, hold_out = 0\<rparr>,
      \<lparr>filename = 12, fold_col = 0, hold_out = 1\<rparr>]"

text \<open>
  Example arrays: a one-channel image of 3 by 5 pixels whose pixel \<open>(x, y)\<close> holds
  \<open>10 x + y + 1\<close>; a one-channel row of ten pixels holding their positions, with a mask
  whose only foreground pixel is the last one; one-voxel volumes with and without
  foreground.
\<close>

definition img_3x5 :: "int ndarray" where
  "img_3x5 =
     \<lparr>shape = [1, 3, 5],
      item = (\<lambda>i. case i of [c, x, y] \<Rightarrow> 10 * int x + int y + 1 | _ \<Rightarrow> 0)\<rparr>"

definition img_row :: "int ndarray" where
  "img_row = \<lparr>shape = [1, 10], item = (\<lambda>i. case i of [c, x] \<Rightarrow> int x | _ \<Rightarrow> 0)\<rparr>"

definition msk_row :: "int ndarray" where
  "msk_row =
     \<lparr>shape = [1, 10],
      item = (\<lambda>i. case i of [c, x] \<Rightarrow> (if x = 9 then 1 else 0) | _ \<Rightarrow> 0)\<rparr>"



text \<open>
  A one-channel volume of 1 by 1 by 10 voxels holding their last coordinate, and a mask on it
  whose only foreground voxel is the last one.
\<close>

definition img_line :: "int ndarray" where
  "img_line =
     \<lparr>shape = [1, 1, 1, 10], item = (\<lambda>i. case i of [c, z, y, x] \<Rightarrow> int x | _ \<Rightarrow> 0)\<rparr>"

definition msk_line :: "int ndarray" where
  "msk_line =
     \<lparr>shape = [1, 1, 1, 10],
      item = (\<lambda>i. case i of [c, z, y, x] \<Rightarrow> (if x = 9 then 1 else 0) | _ \<Rightarrow> 0)\<rparr>"

text \<open>The last axis of the first channel of a volume, and of the first volume of a batch.\<close>

definition line_of :: "int ndarray \<Rightarrow> int list" where
  "line_of a = map (\<lambda>x. item a [0, 0, 0, x]) [0..<last (shape a)]"

definition batch_line_of :: "int ndarray \<Rightarrow> int list" where
  "batch_line_of a = map (\<lambda>x. item a [0, 0, 0, 0, x]) [0..<last (shape a)]"

section \<open>Deep-supervision downsampling (\<^verbatim>\<open>DownsampleSegForDSTransform2\<close>)\<close>




















section \<open>The batch loader as a state machine\<close>

lemma get_indices_uninit:
  "\<not> was_initialized l \<Longrightarrow> get_indices l r = get_indices (reset l) r"
  by (simp add: get_indices_def reset_def)

lemma get_indices_running:
  assumes "was_initialized l" "indices l \<noteq> []" "current_position l < nbof_steps l"
  shows "\<exists>idx. get_indices l r =
           (Inr idx,
            l\<lparr>current_position := current_position l + number_of_threads_in_multithreaded l\<rparr>,
            rng_drop (batch_size l) r) \<and> is_batch l (Inr idx)"
  using assms
  by (simp add: get_indices_def np_random_choice_def is_batch_def list_all_iff)

lemma get_indices_exhausted:
  assumes "was_initialized l" "indices l \<noteq> []" "\<not> current_position l < nbof_steps l"
  shows "get_indices l r =
           (Inl StopIteration, l\<lparr>was_initialized := False\<rparr>, rng_drop (batch_size l) r)"
  using assms
  by (simp add: get_indices_def np_random_choice_def)

lemma calls_running:
  assumes "was_initialized l" "indices l \<noteq> []"
    "number_of_threads_in_multithreaded l = 1"
    "current_position l + int k \<le> nbof_steps l"
  shows "\<exists>rs. calls k l r =
           (rs, l\<lparr>current_position := current_position l + int k\<rparr>,
            rng_drop (k * batch_size l) r)
         \<and> length rs = k \<and> list_all (is_batch l) rs"
  using assms
proof (induction k arbitrary: l r)
  case 0
  then show ?case by (simp add: rng_drop_def)
next
  case (Suc k)
  let ?l1 = "l\<lparr>current_position := current_position l + 1\<rparr>"
  from Suc.prems obtain idx where
    g: "get_indices l r = (Inr idx, ?l1, rng_drop (batch_size l) r)" and b: "is_batch l (Inr idx)"
    using get_indices_running [of l r] by auto
  have "\<exists>rs. calls k ?l1 (rng_drop (batch_size l) r) =
           (rs, ?l1\<lparr>current_position := current_position ?l1 + int k\<rparr>,
            rng_drop (k * batch_size ?l1) (rng_drop (batch_size l) r))
         \<and> length rs = k \<and> list_all (is_batch ?l1) rs"
    using Suc.prems by (intro Suc.IH) auto
  then obtain rs where
    c: "calls k ?l1 (rng_drop (batch_size l) r) =
           (rs, l\<lparr>current_position := current_position l + 1 + int k\<rparr>,
            rng_drop (k * batch_size l) (rng_drop (batch_size l) r))"
    and n: "length rs = k" and a: "list_all (is_batch ?l1) rs"
    by auto
  have e: "is_batch ?l1 = is_batch l"
    by (rule ext) (simp add: is_batch_def split: sum.splits)
  have d: "rng_drop (k * batch_size l) (rng_drop (batch_size l) r) =
           rng_drop (Suc k * batch_size l) r"
    by (rule ext) (simp add: rng_drop_def ac_simps)
  show ?case
    using g b c n a e d by (simp add: add.assoc add.commute)
qed

lemma calls_snoc:
  "calls (Suc n) l r =
     (case calls n l r of
        (rs, l', r') \<Rightarrow> (case get_indices l' r' of (res, l'', r'') \<Rightarrow> (rs @ [res], l'', r'')))"
proof (induction n arbitrary: l r)
  case 0
  show ?case by (simp split: prod.splits)
next
  case (Suc n)
  obtain res l1 r1 where g: "get_indices l r = (res, l1, r1)"
    by (cases "get_indices l r") auto
  obtain rs l2 r2 where c: "calls n l1 r1 = (rs, l2, r2)"
    by (cases "calls n l1 r1") auto
  obtain res' l3 r3 where g': "get_indices l2 r2 = (res', l3, r3)"
    by (cases "get_indices l2 r2") auto
  have a: "calls (Suc n) l1 r1 = (rs @ [res'], l3, r3)"
    using Suc.IH [of l1 r1] c g' by (simp del: calls.simps)
  have b: "calls (Suc n) l r = (res # rs, l2, r2)"
    using g c by simp
  have "calls (Suc (Suc n)) l r = (res # rs @ [res'], l3, r3)"
    using g a by (subst calls.simps(2)) (simp del: calls.simps)
  then show ?case
    using b g' by (simp del: calls.simps)
qed

lemma calls_until_stop:
  assumes "was_initialized l" "current_position l = 0" "indices l \<noteq> []"
    "number_of_threads_in_multithreaded l = 1" "0 \<le> nbof_steps l"
  shows "\<exists>rs r'. calls (Suc (nat (nbof_steps l))) l r =
           (rs @ [Inl StopIteration],
            l\<lparr>current_position := nbof_steps l, was_initialized := False\<rparr>, r')
         \<and> length rs = nat (nbof_steps l) \<and> list_all (is_batch l) rs"
proof -
  let ?n = "nat (nbof_steps l)"
  let ?l1 = "l\<lparr>current_position := current_position l + int ?n\<rparr>"
  obtain rs where
    c: "calls ?n l r = (rs, ?l1, rng_drop (?n * batch_size l) r)"
    and n: "length rs = ?n" and a: "list_all (is_batch l) rs"
    using calls_running [of l ?n r] assms by auto
  have "get_indices ?l1 (rng_drop (?n * batch_size l) r) =
          (Inl StopIteration, ?l1\<lparr>was_initialized := False\<rparr>,
           rng_drop (batch_size ?l1) (rng_drop (?n * batch_size l) r))"
    using assms by (intro get_indices_exhausted) auto
  with c n a assms show ?thesis
    by (simp add: calls_snoc del: calls.simps)
qed

lemma calls_uninit:
  "\<not> was_initialized l \<Longrightarrow> calls (Suc n) l r = calls (Suc n) (reset l) r"
  by (simp add: get_indices_uninit)

lemma is_batch_reset: "is_batch (reset l) = is_batch l"
  by (rule ext) (simp add: is_batch_def reset_def split: sum.splits)

lemma calls_fresh:
  assumes "\<not> was_initialized l" "indices l \<noteq> []"
    "number_of_threads_in_multithreaded l = 1" "nbof_steps l = 10"
  shows "\<exists>rs r'. calls 11 l r =
           (rs @ [Inl StopIteration],
            l\<lparr>current_position := 10, was_initialized := False\<rparr>, r')
         \<and> length rs = 10 \<and> list_all (is_batch l) rs"
proof -
  have e: "(11::nat) = Suc (nat (nbof_steps (reset l)))"
    using assms by (simp add: reset_def)
  have "calls 11 l r = calls (Suc (nat (nbof_steps (reset l)))) (reset l) r"
    using assms(1) calls_uninit [of l 10 r] by (simp add: reset_def assms(4) del: calls.simps)
  moreover have "\<exists>rs r'. calls (Suc (nat (nbof_steps (reset l)))) (reset l) r =
           (rs @ [Inl StopIteration],
            (reset l)\<lparr>current_position := nbof_steps (reset l), was_initialized := False\<rparr>, r')
         \<and> length rs = nat (nbof_steps (reset l)) \<and> list_all (is_batch (reset l)) rs"
    using assms by (intro calls_until_stop) (simp_all add: reset_def)
  ultimately show ?thesis
    using assms(4) by (simp add: is_batch_reset del: calls.simps) (simp add: reset_def)
qed

text \<open>
  C8. A loader as the constructor leaves it (step counter 0, not initialised), with
  \<open>nbof_steps = 10\<close>, stride 1 and at least one data item: the first ten calls of
  \<^verbatim>\<open>get_indices\<close> each return \<open>batch_size\<close> indices of the data, the eleventh raises
  \<^verbatim>\<open>StopIteration\<close>; \<^verbatim>\<open>reset()\<close> then sets the step counter to zero, and again ten calls
  succeed and the eleventh raises \<^verbatim>\<open>StopIteration\<close>. This holds for every random stream.
\<close>

theorem loader_ten_steps_then_stop:
  assumes "nbof_steps l = 10" and "number_of_threads_in_multithreaded l = 1"
    and "current_position l = 0" and "\<not> was_initialized l" and "indices l \<noteq> []"
  shows "\<exists>rs l' r'.
           calls 11 l r = (rs @ [Inl StopIteration], l', r')
         \<and> length rs = 10 \<and> list_all (is_batch l) rs
         \<and> current_position (reset l') = 0
         \<and> (\<exists>rs2 l2 r2.
               calls 11 (reset l') r' = (rs2 @ [Inl StopIteration], l2, r2)
             \<and> length rs2 = 10 \<and> list_all (is_batch l) rs2)"
proof -
  let ?l' = "l\<lparr>current_position := 10, was_initialized := False\<rparr>"
  obtain rs r' where
    c: "calls 11 l r = (rs @ [Inl StopIteration], ?l', r')"
    and n: "length rs = 10" and a: "list_all (is_batch l) rs"
    using calls_fresh [of l r] assms by blast
  have e: "Suc (nat (nbof_steps (reset ?l'))) = 11"
    using assms by (simp add: reset_def)
  have "\<exists>rs2 r2. calls (Suc (nat (nbof_steps (reset ?l')))) (reset ?l') r' =
           (rs2 @ [Inl StopIteration],
            (reset ?l')\<lparr>current_position := nbof_steps (reset ?l'), was_initialized := False\<rparr>,
            r2)
         \<and> length rs2 = nat (nbof_steps (reset ?l')) \<and> list_all (is_batch (reset ?l')) rs2"
    using assms by (intro calls_until_stop) (simp_all add: reset_def)
  then obtain rs2 l2 r2 where
    c2': "calls (Suc (nat (nbof_steps (reset ?l')))) (reset ?l') r' =
            (rs2 @ [Inl StopIteration], l2, r2)"
    and n2': "length rs2 = nat (nbof_steps (reset ?l'))"
    and a2: "list_all (is_batch (reset ?l')) rs2"
    by blast
  have c2: "calls 11 (reset ?l') r' = (rs2 @ [Inl StopIteration], l2, r2)"
    using c2' unfolding e .
  have n2: "length rs2 = 10"
    using n2' assms(1) by (simp add: reset_def)
  have b: "is_batch (reset ?l') = is_batch l"
    by (rule ext) (simp add: is_batch_def reset_def split: sum.splits)
  have z: "current_position (reset ?l') = 0"
    by (simp add: reset_def)
  show ?thesis
    using c n a z c2 n2 a2 b by (simp del: calls.simps)
qed

theorem loader_ten_steps_then_stop_witness:
  "\<exists>rs l' r'.
     calls 11 loader_example id = (rs @ [Inl StopIteration], l', r')
   \<and> length rs = 10 \<and> list_all (is_batch loader_example) rs
   \<and> current_position (reset l') = 0
   \<and> (\<exists>rs2 l2 r2.
         calls 11 (reset l') r' = (rs2 @ [Inl StopIteration], l2, r2)
       \<and> length rs2 = 10 \<and> list_all (is_batch loader_example) rs2)"
proof -
  have h1: "nbof_steps loader_example = 10"
    and h2: "number_of_threads_in_multithreaded loader_example = 1"
    and h3: "current_position loader_example = 0"
    and h4: "\<not> was_initialized loader_example"
    and h5: "indices loader_example \<noteq> []"
    by (simp_all add: loader_example_def)
  show ?thesis
    by (rule loader_ten_steps_then_stop [OF h1 h2 h3 h4 h5])
qed

text \<open>
  C9 fails on the code: \<^verbatim>\<open>get_indices\<close> clears \<^verbatim>\<open>was_initialized\<close> before it raises
  \<^verbatim>\<open>StopIteration\<close>, and a call that finds the flag cleared calls \<^verbatim>\<open>reset()\<close> itself.
  On the example loader the eleventh call raises \<^verbatim>\<open>StopIteration\<close> and the twelfth,
  with no \<^verbatim>\<open>reset()\<close> in between, returns four indices.
\<close>

theorem exhausted_loader_resumes_counterexample:
  "fst (calls 12 loader_example id) ! 10 = Inl StopIteration
   \<and> fst (calls 12 loader_example id) ! 11 = Inr [2, 0, 1, 2]"
  by code_simp

text \<open>
  C9 as amended. When a call of \<^verbatim>\<open>get_indices\<close> has raised \<^verbatim>\<open>StopIteration\<close>, the next
  call on the loader as that call left it, with no \<^verbatim>\<open>reset()\<close> in between, resets the
  step counter itself: if \<open>nbof_steps\<close> is positive it returns \<open>batch_size\<close> indices and
  leaves the loader initialised with the step counter at the stride.
\<close>

theorem get_indices_after_stop_resumes:
  assumes "get_indices l r = (Inl StopIteration, l', r')" and "0 < nbof_steps l"
  shows "\<exists>idx l'' r''.
           get_indices l' r' = (Inr idx, l'', r'') \<and> is_batch l (Inr idx)
         \<and> was_initialized l''
         \<and> current_position l'' = number_of_threads_in_multithreaded l"
proof -
  define l1 where "l1 = (if \<not> was_initialized l then reset l else l)"
  have c: "np_random_choice (indices l1) (batch_size l1) r \<noteq> Inl ValueError"
    using assms(1) unfolding get_indices_def l1_def [symmetric]
    by (auto simp: Let_def np_random_choice_def split: if_splits)
  have l': "l' = l1\<lparr>was_initialized := False\<rparr>"
    using assms(1) unfolding get_indices_def l1_def [symmetric]
    by (auto simp: Let_def np_random_choice_def split: if_splits)
  have e: "indices l1 = indices l" "batch_size l1 = batch_size l"
    "nbof_steps l1 = nbof_steps l"
    "number_of_threads_in_multithreaded l1 = number_of_threads_in_multithreaded l"
    by (simp_all add: l1_def reset_def)
  have ok: "\<not> (indices l = [] \<and> batch_size l \<noteq> 0)"
    using c e by (auto simp: np_random_choice_def split: if_splits)
  let ?idx = "map (\<lambda>k. indices l ! (r' k mod length (indices l))) [0..<batch_size l]"
  have "get_indices l' r' =
          (Inr ?idx,
           l'\<lparr>current_position := number_of_threads_in_multithreaded l,
               was_initialized := True\<rparr>,
           rng_drop (batch_size l) r')"
    using ok assms(2) e unfolding l'
    by (cases "indices l = []")
      (simp_all add: get_indices_def np_random_choice_def reset_def Let_def)
  moreover have "is_batch l (Inr ?idx)"
    using ok by (auto simp: is_batch_def list_all_iff)
  ultimately show ?thesis
    by simp
qed

theorem get_indices_after_stop_resumes_witness:
  "get_indices loader_at_end id =
     (Inl StopIteration, loader_at_end\<lparr>was_initialized := False\<rparr>, rng_drop 4 id)
   \<and> 0 < nbof_steps loader_at_end
   \<and> (\<exists>idx l'' r''.
         get_indices (loader_at_end\<lparr>was_initialized := False\<rparr>) (rng_drop 4 id)
           = (Inr idx, l'', r'')
       \<and> is_batch loader_at_end (Inr idx) \<and> was_initialized l''
       \<and> current_position l'' = number_of_threads_in_multithreaded loader_at_end)"
proof -
  have h: "get_indices loader_at_end id =
     (Inl StopIteration, loader_at_end\<lparr>was_initialized := False\<rparr>, rng_drop 4 id)"
    by (simp add: get_indices_def np_random_choice_def loader_at_end_def loader_example_def)
  have p: "0 < nbof_steps loader_at_end"
    by (simp add: loader_at_end_def loader_example_def)
  show ?thesis
    using h p get_indices_after_stop_resumes [OF h p] by simp
qed

section \<open>Folds and the train/validation split\<close>

lemma fold_max_ge: "r \<in> set df \<Longrightarrow> fold_col r \<le> fold_max df"
  by (induction df rule: fold_max.induct) auto

lemma fold_max_in: "df \<noteq> [] \<Longrightarrow> \<exists>r\<in>set df. fold_col r = fold_max df"
  by (induction df rule: fold_max.induct) (auto simp: max_def)

lemma get_folds_df_length:
  "length (get_folds_df df) = (if df = [] then 0 else nat (fold_max df + 1))"
  by (simp add: get_folds_df_def Let_def)

lemma get_folds_df_nth:
  "i < length (get_folds_df df) \<Longrightarrow>
     get_folds_df df ! i = map filename (filter (\<lambda>r. fold_col r = int i) df)"
  by (auto simp: get_folds_df_def Let_def split: if_splits)

lemma get_folds_df_eq:
  "get_folds_df df =
     map (\<lambda>i. map filename (filter (\<lambda>r. fold_col r = int i) df))
         [0..<length (get_folds_df df)]"
  by (simp add: get_folds_df_def Let_def)

lemma filter_neq_upt: "j < n \<Longrightarrow> filter (\<lambda>i. i \<noteq> j) [0..<n] = [0..<j] @ [Suc j..<n]"
proof -
  assume j: "j < n"
  have "[0..<n] = [0..<j] @ [j] @ [Suc j..<n]"
    using j by (metis append_Cons append_Nil le_add1 le_add_same_cancel1 less_imp_add_positive
        upt_add_eq_append upt_conv_Cons)
  then have "filter (\<lambda>i. i \<noteq> j) [0..<n] = filter (\<lambda>i. i \<noteq> j) ([0..<j] @ [j] @ [Suc j..<n])"
    by simp
  also have "\<dots> = [0..<j] @ [Suc j..<n]"
    by (auto simp: filter_id_conv)
  finally show ?thesis .
qed

lemma py_del_map_upt:
  "j < n \<Longrightarrow> py_del (map f [0..<n]) j = map f (filter (\<lambda>i. i \<noteq> j) [0..<n])"
  by (simp add: py_del_def filter_neq_upt take_map drop_map)


lemma py_index_in_range:
  "0 \<le> k \<Longrightarrow> k < int (length xs) \<Longrightarrow> py_index xs k = Inr (nat k)"
  by (simp add: py_index_def Let_def)

lemma init_split_parts:
  fixes df :: "'f dataframe"
  defines "nh \<equiv> filter (\<lambda>r. hold_out r = 0) df"
  assumes ne: "nh \<noteq> []" and k0: "0 \<le> k" and km: "k \<le> fold_max nh"
  shows "\<exists>l. BatchGenDataLoader_init all_set bs steps (Some df) k vs tr nt = Inr l
    \<and> val_imgs l = map filename (filter (\<lambda>r. hold_out r = 0 \<and> fold_col r = k) df)
    \<and> train_imgs l =
        concat (map (\<lambda>i. map filename (filter (\<lambda>r. hold_out r = 0 \<and> fold_col r = int i) df))
                    (filter (\<lambda>i. int i \<noteq> k) [0..<nat (fold_max nh + 1)]))
    \<and> fnames l = (if tr then train_imgs l else val_imgs l)"
proof -
  let ?f = "\<lambda>i. map filename (filter (\<lambda>r. fold_col r = int i) nh)"
  let ?n = "nat (fold_max nh + 1)"
  have ts: "fst (get_folds_train_test_df df) = get_folds_df nh"
    by (simp add: get_folds_train_test_df_def nh_def Let_def)
  have len: "length (get_folds_df nh) = ?n"
    using ne by (simp add: get_folds_df_length)
  have gf: "get_folds_df nh = map ?f [0..<?n]"
    using get_folds_df_eq [of nh] len by simp
  have kn: "nat k < ?n"
    using k0 km by simp
  have idx: "py_index (get_folds_df nh) k = Inr (nat k)"
    using k0 km len by (intro py_index_in_range) simp_all
  have v: "get_folds_df nh ! nat k = map filename (filter (\<lambda>r. fold_col r = k) nh)"
    using kn k0 len by (simp add: get_folds_df_nth)
  have flt: "filter (\<lambda>i. i \<noteq> nat k) [0..<?n] = filter (\<lambda>i. int i \<noteq> k) [0..<?n]"
    using k0 by (intro filter_cong) auto
  have t: "concat (py_del (get_folds_df nh) (nat k)) =
             concat (map ?f (filter (\<lambda>i. int i \<noteq> k) [0..<?n]))"
    using py_del_map_upt [OF kn, of ?f] gf flt by simp
  have ff: "\<And>i. filter (\<lambda>r. fold_col r = i) nh = filter (\<lambda>r. hold_out r = 0 \<and> fold_col r = i) df"
    by (simp add: nh_def)
  show ?thesis
    using idx v t
    by (simp add: BatchGenDataLoader_init_def ts Let_def ff)
qed


lemma length_filter_disj:
  "(\<And>x. \<not> (P x \<and> Q x)) \<Longrightarrow>
     length (filter (\<lambda>x. P x \<or> Q x) xs) = length (filter P xs) + length (filter Q xs)"
  by (induction xs) auto

lemma length_filter_range:
  "length (filter (\<lambda>r. 0 \<le> f r \<and> f r < int n) xs) =
     (\<Sum>i<n. length (filter (\<lambda>r. f r = int i) xs))"
proof (induction n)
  case 0
  have "filter (\<lambda>r. 0 \<le> f r \<and> f r < int 0) xs = []"
    by (induction xs) auto
  then show ?case by simp
next
  case (Suc n)
  have "filter (\<lambda>r. 0 \<le> f r \<and> f r < int (Suc n)) xs =
        filter (\<lambda>r. (0 \<le> f r \<and> f r < int n) \<or> f r = int n) xs"
    by (intro filter_cong) auto
  then show ?case
    using Suc length_filter_disj [of "\<lambda>r. 0 \<le> f r \<and> f r < int n" "\<lambda>r. f r = int n" xs]
    by simp
qed

lemma evenly_split_range:
  assumes "length t = 100"
    and "\<forall>i\<in>{0..<5}. length (filter (\<lambda>r. fold_col r = int i) t) = 20"
    and "r \<in> set t"
  shows "0 \<le> fold_col r \<and> fold_col r < 5"
proof (rule ccontr)
  assume n: "\<not> (0 \<le> fold_col r \<and> fold_col r < 5)"
  have "(\<Sum>i<5. length (filter (\<lambda>r. fold_col r = int i) t)) = (\<Sum>i<(5::nat). 20)"
    using assms(2) by (intro sum.cong) auto
  then have "length (filter (\<lambda>r. 0 \<le> fold_col r \<and> fold_col r < int 5) t) = 100"
    using length_filter_range [of fold_col 5 t] by simp
  moreover have "length (filter (\<lambda>r. 0 \<le> fold_col r \<and> fold_col r < int 5) t) < length t"
    using assms(3) n by (intro length_filter_less) auto
  ultimately show False
    using assms(1) by simp
qed

lemma evenly_split_example:
  fixes t :: "'f dataframe"
  assumes len: "length t = 100"
    and ho: "\<forall>r\<in>set t. hold_out r = 0"
    and ev: "\<forall>i\<in>{0..<5}. length (filter (\<lambda>r. fold_col r = int i) t) = 20"
    and dist: "distinct (map filename t)"
  shows "\<exists>l. BatchGenDataLoader_init all_set bs steps (Some t) 2 vs tr nt = Inr l
    \<and> length (val_imgs l) = 20 \<and> length (train_imgs l) = 80
    \<and> set (val_imgs l) \<inter> set (train_imgs l) = {}
    \<and> set (val_imgs l) \<union> set (train_imgs l) = set (map filename t)"
proof -
  have nh: "filter (\<lambda>r. hold_out r = 0) t = t"
    using ho by (simp add: filter_id_conv)
  have rng: "\<And>r. r \<in> set t \<Longrightarrow> 0 \<le> fold_col r \<and> fold_col r < 5"
    using evenly_split_range [OF len ev] .
  have tne: "t \<noteq> []"
    using len by auto
  have cnt: "\<And>i. i < 5 \<Longrightarrow> length (filter (\<lambda>r. fold_col r = int i) t) = 20"
    using ev by simp
  have "filter (\<lambda>r. fold_col r = int 4) t \<noteq> []"
    using cnt [of 4] by auto
  then obtain r4 where r4: "r4 \<in> set t" "fold_col r4 = 4"
    by (auto simp: filter_empty_conv)
  obtain rm where rm: "rm \<in> set t" "fold_col rm = fold_max t"
    using fold_max_in [OF tne] by auto
  have fm: "fold_max t = 4"
    using fold_max_ge [OF r4(1)] r4(2) rng [OF rm(1)] rm(2) by simp
  have ff: "\<And>i. filter (\<lambda>r. hold_out r = 0 \<and> fold_col r = i) t = filter (\<lambda>r. fold_col r = i) t"
    using ho by (intro filter_cong) auto
  have idxs: "filter (\<lambda>i. int i \<noteq> 2) [0..<nat (4 + 1)] = [0, 1, 3, 4]"
    by code_simp
  have p0: "(0::int) \<le> 2"
    by simp
  have p1: "filter (\<lambda>r. hold_out r = 0) t \<noteq> []"
    using nh tne by simp
  have p2: "2 \<le> fold_max (filter (\<lambda>r. hold_out r = 0) t)"
    using nh fm by simp
  from init_split_parts [OF p1 p0 p2, of all_set bs steps vs tr nt] obtain l where
    i: "BatchGenDataLoader_init all_set bs steps (Some t) 2 vs tr nt = Inr l"
    and v0: "val_imgs l = map filename (filter (\<lambda>r. hold_out r = 0 \<and> fold_col r = 2) t)"
    and tr0: "train_imgs l =
        concat (map (\<lambda>i. map filename (filter (\<lambda>r. hold_out r = 0 \<and> fold_col r = int i) t))
                    (filter (\<lambda>i. int i \<noteq> 2)
                       [0..<nat (fold_max (filter (\<lambda>r. hold_out r = 0) t) + 1)]))"
    by blast
  have v: "val_imgs l = map filename (filter (\<lambda>r. fold_col r = 2) t)"
    using v0 unfolding ff .
  have tr: "train_imgs l =
        concat (map (\<lambda>i. map filename (filter (\<lambda>r. fold_col r = int i) t)) [0, 1, 3, 4])"
    using tr0 unfolding nh fm ff idxs .
  have lv: "length (val_imgs l) = 20"
    using cnt [of 2] by (simp add: v)
  have lt: "length (train_imgs l) = 80"
    using cnt [of 0] cnt [of 1] cnt [of 3] cnt [of 4] by (simp add: tr)
  define S where "S i = set (map filename (filter (\<lambda>r. fold_col r = i) t))" for i
  have sv: "set (val_imgs l) = S 2"
    by (simp add: S_def v)
  have st: "set (train_imgs l) = S 0 \<union> S 1 \<union> S 3 \<union> S 4"
    by (simp add: S_def tr Un_assoc)
  have inj: "inj_on filename (set t)"
    using dist by (simp add: distinct_map)
  have sd: "\<And>i j. i \<noteq> j \<Longrightarrow> S i \<inter> S j = {}"
    using inj unfolding S_def by (auto dest: inj_onD)
  have disj: "set (val_imgs l) \<inter> set (train_imgs l) = {}"
    using sd [of 2 0] sd [of 2 1] sd [of 2 3] sd [of 2 4] unfolding sv st by auto
  have sub: "\<And>i. S i \<subseteq> set (map filename t)"
    unfolding S_def by auto
  have mem: "\<And>r. r \<in> set t \<Longrightarrow> filename r \<in> S (fold_col r)"
    unfolding S_def by auto
  have five: "\<And>r. r \<in> set t \<Longrightarrow> fold_col r \<in> {0, 1, 2, 3, 4}"
    using rng by force
  have "set (map filename t) \<subseteq> S 0 \<union> S 1 \<union> S 2 \<union> S 3 \<union> S 4"
  proof
    fix y
    assume "y \<in> set (map filename t)"
    then obtain r where r: "r \<in> set t" "y = filename r"
      by auto
    from five [OF r(1)] mem [OF r(1)] r(2) show "y \<in> S 0 \<union> S 1 \<union> S 2 \<union> S 3 \<union> S 4"
      by auto
  qed
  then have un: "set (val_imgs l) \<union> set (train_imgs l) = set (map filename t)"
    using sub [of 0] sub [of 1] sub [of 2] sub [of 3] sub [of 4] unfolding sv st by blast
  show ?thesis
    using i lv lt disj un by blast
qed


text \<open>
  C6. When the table has a row that is not held out and \<open>0 \<le> k \<le>\<close> the largest fold index
  of those rows, the constructor succeeds, the validation names are the file names of the
  rows of fold \<open>k\<close> that are not held out, in row order, and the training names are the
  concatenation, in increasing fold index, of the names of every other fold of the rows
  that are not held out. For 100 rows with distinct names, none held out, 20 in each of the
  folds 0 to 4, and \<open>k = 2\<close>: 20 validation names, 80 training names, the two disjoint,
  together all the names of the table.
\<close>

theorem train_validation_split:
  fixes df t :: "'f dataframe"
  shows "(filter (\<lambda>r. hold_out r = 0) df \<noteq> [] \<and> 0 \<le> k
          \<and> k \<le> fold_max (filter (\<lambda>r. hold_out r = 0) df) \<longrightarrow>
          (\<exists>l. BatchGenDataLoader_init all_set bs steps (Some df) k vs tr nt = Inr l
             \<and> val_imgs l = map filename (filter (\<lambda>r. hold_out r = 0 \<and> fold_col r = k) df)
             \<and> train_imgs l =
                 concat (map (\<lambda>i. map filename
                                     (filter (\<lambda>r. hold_out r = 0 \<and> fold_col r = int i) df))
                          (filter (\<lambda>i. int i \<noteq> k)
                             [0..<nat (fold_max (filter (\<lambda>r. hold_out r = 0) df) + 1)]))
             \<and> fnames l = (if tr then train_imgs l else val_imgs l)))
       \<and> (length t = 100 \<and> (\<forall>r\<in>set t. hold_out r = 0)
          \<and> (\<forall>i\<in>{0..<5}. length (filter (\<lambda>r. fold_col r = int i) t) = 20)
          \<and> distinct (map filename t) \<longrightarrow>
          (\<exists>l. BatchGenDataLoader_init all_set bs steps (Some t) 2 vs tr nt = Inr l
             \<and> length (val_imgs l) = 20 \<and> length (train_imgs l) = 80
             \<and> set (val_imgs l) \<inter> set (train_imgs l) = {}
             \<and> set (val_imgs l) \<union> set (train_imgs l) = set (map filename t)))"
proof (intro conjI impI)
  assume "filter (\<lambda>r. hold_out r = 0) df \<noteq> [] \<and> 0 \<le> k
          \<and> k \<le> fold_max (filter (\<lambda>r. hold_out r = 0) df)"
  then show "\<exists>l. BatchGenDataLoader_init all_set bs steps (Some df) k vs tr nt = Inr l
             \<and> val_imgs l = map filename (filter (\<lambda>r. hold_out r = 0 \<and> fold_col r = k) df)
             \<and> train_imgs l =
                 concat (map (\<lambda>i. map filename
                                     (filter (\<lambda>r. hold_out r = 0 \<and> fold_col r = int i) df))
                          (filter (\<lambda>i. int i \<noteq> k)
                             [0..<nat (fold_max (filter (\<lambda>r. hold_out r = 0) df) + 1)]))
             \<and> fnames l = (if tr then train_imgs l else val_imgs l)"
    using init_split_parts [of df k all_set bs steps vs tr nt] by blast
next
  assume "length t = 100 \<and> (\<forall>r\<in>set t. hold_out r = 0)
          \<and> (\<forall>i\<in>{0..<5}. length (filter (\<lambda>r. fold_col r = int i) t) = 20)
          \<and> distinct (map filename t)"
  then show "\<exists>l. BatchGenDataLoader_init all_set bs steps (Some t) 2 vs tr nt = Inr l
             \<and> length (val_imgs l) = 20 \<and> length (train_imgs l) = 80
             \<and> set (val_imgs l) \<inter> set (train_imgs l) = {}
             \<and> set (val_imgs l) \<union> set (train_imgs l) = set (map filename t)"
    using evenly_split_example [of t all_set bs steps vs tr nt] by blast
qed

theorem train_validation_split_witness:
  "(\<exists>l. BatchGenDataLoader_init [] 4 10 (Some table100) 2 (1 / 4) True 1 = Inr l
      \<and> val_imgs l = map filename (filter (\<lambda>r. hold_out r = 0 \<and> fold_col r = 2) table100)
      \<and> train_imgs l =
          concat (map (\<lambda>i. map filename
                              (filter (\<lambda>r. hold_out r = 0 \<and> fold_col r = int i) table100))
                   (filter (\<lambda>i. int i \<noteq> 2)
                      [0..<nat (fold_max (filter (\<lambda>r. hold_out r = 0) table100) + 1)]))
      \<and> fnames l = (if True then train_imgs l else val_imgs l))
   \<and> (\<exists>l. BatchGenDataLoader_init [] 4 10 (Some table100) 2 (1 / 4) True 1 = Inr l
      \<and> length (val_imgs l) = 20 \<and> length (train_imgs l) = 80
      \<and> set (val_imgs l) \<inter> set (train_imgs l) = {}
      \<and> set (val_imgs l) \<union> set (train_imgs l) = set (map filename table100))"
proof -
  have a: "filter (\<lambda>r. hold_out r = 0) table100 \<noteq> [] \<and> (0::int) \<le> 2
          \<and> 2 \<le> fold_max (filter (\<lambda>r. hold_out r = 0) table100)"
    by code_simp
  have b1: "length table100 = 100"
    by code_simp
  have b2: "\<forall>r\<in>set table100. hold_out r = 0"
    by code_simp
  have b3: "\<forall>i\<in>{0..<5}. length (filter (\<lambda>r. fold_col r = int i) table100) = 20"
    by code_simp
  have b4: "distinct (map filename table100)"
    by code_simp
  show ?thesis
    using train_validation_split [of table100 2 "[]" 4 10 "1 / 4" True 1 table100] a b1 b2 b3 b4
    by blast
qed

text \<open>
  C7 fails on the code: no function raises \<^verbatim>\<open>ConfigurationError\<close>. On an empty table
  \<^verbatim>\<open>get_folds_df\<close> returns \<open>[]\<close> and \<^verbatim>\<open>trainset[self.fold]\<close> raises \<^verbatim>\<open>IndexError\<close>; the same
  indexing raises \<^verbatim>\<open>IndexError\<close> for fold 5 on a table with the folds 0 and 1.
\<close>

theorem fold_split_error_counterexample:
  "BatchGenDataLoader_init [] 4 10 (Some ([] :: nat dataframe)) 0 (1 / 4) True 1
     = Inl IndexError
   \<and> BatchGenDataLoader_init [] 4 10 (Some table3) 5 (1 / 4) True 1 = Inl IndexError
   \<and> IndexError \<noteq> ConfigurationError"
  by code_simp

text \<open>
  C7 as amended. With \<open>n\<close> the number of folds of the rows that are not held out (0 when
  there is no such row, as for an empty table), the constructor fails with \<^verbatim>\<open>IndexError\<close>
  when \<open>k \<ge> n\<close> or \<open>k < -n\<close>, and succeeds when \<open>-n \<le> k < n\<close> (a negative index counts from
  the last fold); it never fails with \<^verbatim>\<open>ConfigurationError\<close>. The failure is the
  constructor's own result.
\<close>

theorem fold_split_fails_with_IndexError:
  fixes df :: "'f dataframe"
  defines "n \<equiv> int (length (fst (get_folds_train_test_df df)))"
  shows "(k < - n \<or> n \<le> k \<longrightarrow>
            BatchGenDataLoader_init all_set bs steps (Some df) k vs tr nt = Inl IndexError)
       \<and> (- n \<le> k \<and> k < n \<longrightarrow>
            (\<exists>l. BatchGenDataLoader_init all_set bs steps (Some df) k vs tr nt = Inr l))
       \<and> (filter (\<lambda>r. hold_out r = 0) df = [] \<longrightarrow> n = 0)
       \<and> BatchGenDataLoader_init all_set bs steps (Some df) k vs tr nt
           \<noteq> Inl ConfigurationError"
  unfolding n_def
  by (auto simp: BatchGenDataLoader_init_def py_index_def Let_def get_folds_train_test_df_def
      get_folds_df_def split: sum.splits)

theorem fold_split_fails_with_IndexError_witness:
  "BatchGenDataLoader_init [] 4 10 (Some ([] :: nat dataframe)) 0 (1 / 4) True 1
     = Inl IndexError
   \<and> BatchGenDataLoader_init [] 4 10 (Some table3) 2 (1 / 4) True 1 = Inl IndexError
   \<and> (\<exists>l. BatchGenDataLoader_init [] 4 10 (Some table3) (- 1) (1 / 4) True 1 = Inr l)"
proof -
  have e: "int (length (fst (get_folds_train_test_df ([] :: nat dataframe)))) = 0"
    by code_simp
  have n: "int (length (fst (get_folds_train_test_df table3))) = 2"
    by code_simp
  show ?thesis
    using fold_split_fails_with_IndexError [of 0 "[] :: nat dataframe" "[]" 4 10 "1 / 4" True 1]
      fold_split_fails_with_IndexError [of 2 table3 "[]" 4 10 "1 / 4" True 1]
      fold_split_fails_with_IndexError [of "- 1" table3 "[]" 4 10 "1 / 4" True 1]
    unfolding e n by simp
qed

section \<open>The crop windows\<close>

lemma bindE_Inr [simp]: "bindE (Inr x) f = f x"
  by (simp add: bindE_def)

lemma bindE_Inl [simp]: "bindE (Inl e) f = Inl e"
  by (simp add: bindE_def)

lemma np_op2_same_length:
  "length xs = length ys \<Longrightarrow> np_op2 f xs ys = Inr (map2 f xs ys)"
  by (simp add: np_op2_def np_broadcast_def)

lemma np_broadcast_zero: "np_broadcast [0] ys = Inr (replicate (length ys) 0, ys)"
  by (cases ys) (auto simp: np_broadcast_def)

lemma np_random_randint_same_length:
  assumes "length lo = length hi" and "\<forall>i<length lo. lo ! i < hi ! i"
  shows "np_random_randint lo hi r =
           Inr (map (\<lambda>k. lo ! k + int (r k mod nat (hi ! k - lo ! k))) [0..<length lo],
                rng_drop (length lo) r)"
proof -
  have a: "\<not> list_ex (\<lambda>lh. snd lh \<le> fst lh) (zip lo hi)"
    using assms by (fastforce simp: list_ex_iff in_set_zip)
  have b: "map (\<lambda>(k, l, h). l + int (r k mod nat (h - l))) (zip [0..<length lo] (zip lo hi)) =
           map (\<lambda>k. lo ! k + int (r k mod nat (hi ! k - lo ! k))) [0..<length lo]"
    using assms(1) by (intro nth_equalityI) simp_all
  show ?thesis
    using a b assms(1) by (simp add: np_random_randint_def np_broadcast_def)
qed

lemma random_crop_start_eq:
  assumes "length crop_shape = length img_shape"
  shows "random_crop_start img_shape crop_shape r =
           Inr (map (\<lambda>k. int (r k mod nat (max 1 (img_shape ! k - crop_shape ! k))))
                  [0..<length img_shape],
                rng_drop (length img_shape) r)"
proof -
  let ?n = "length img_shape"
  let ?hi = "map (max 1) (map2 (-) img_shape crop_shape)"
  have l: "length ?hi = ?n"
    using assms by simp
  have h: "\<And>k. k < ?n \<Longrightarrow> ?hi ! k = max 1 (img_shape ! k - crop_shape ! k)"
    using assms by simp
  have "np_random_randint [0] ?hi r = np_random_randint (replicate ?n 0) ?hi r"
    using l by (simp add: np_random_randint_def np_broadcast_zero) (simp add: np_broadcast_def)
  also have "\<dots> = Inr (map (\<lambda>k. replicate ?n 0 ! k
                           + int (r k mod nat (?hi ! k - replicate ?n 0 ! k)))
                         [0..<length (replicate ?n (0::int))],
                       rng_drop (length (replicate ?n (0::int))) r)"
    using l h by (intro np_random_randint_same_length) auto
  also have "\<dots> = Inr (map (\<lambda>k. int (r k mod nat (max 1 (img_shape ! k - crop_shape ! k))))
                         [0..<?n], rng_drop ?n r)"
    using h by (auto intro!: nth_equalityI)
  finally show ?thesis
    using assms by (simp add: random_crop_start_def np_op2_same_length)
qed


text \<open>
  C4. When the crop shape has as many axes as the image (the assertion of \<^verbatim>\<open>random_crop\<close>),
  \<^verbatim>\<open>start\<close> is drawn without error, one value per axis, with
  \<open>0 \<le> start \<le> max 1 (source - target)\<close> on every axis (the upper end itself is never drawn:
  \<^verbatim>\<open>randint\<close> excludes it), and \<open>start = 0\<close> on every axis where the target is not smaller
  than the source. The axes are independent: every vector within the per-axis ranges is the
  start of some random stream.
\<close>

theorem random_crop_start_in_range:
  assumes "length crop_shape = length img_shape"
  shows "(\<exists>start r'.
            random_crop_start img_shape crop_shape r = Inr (start, r')
          \<and> length start = length img_shape
          \<and> (\<forall>i<length img_shape.
                0 \<le> start ! i
              \<and> start ! i \<le> max 1 (img_shape ! i - crop_shape ! i)
              \<and> start ! i < max 1 (img_shape ! i - crop_shape ! i)
              \<and> (img_shape ! i \<le> crop_shape ! i \<longrightarrow> start ! i = 0)))
       \<and> (\<forall>v. length v = length img_shape
              \<and> (\<forall>i<length img_shape.
                    0 \<le> v ! i \<and> v ! i < max 1 (img_shape ! i - crop_shape ! i)) \<longrightarrow>
              (\<exists>r0 r'. random_crop_start img_shape crop_shape r0 = Inr (v, r')))"
proof (intro conjI allI impI)
  let ?n = "length img_shape"
  let ?start = "map (\<lambda>k. int (r k mod nat (max 1 (img_shape ! k - crop_shape ! k)))) [0..<?n]"
  have bound: "\<And>k. int (r k mod nat (max 1 (img_shape ! k - crop_shape ! k)))
                    < max 1 (img_shape ! k - crop_shape ! k)"
  proof -
    fix k
    have "r k mod nat (max 1 (img_shape ! k - crop_shape ! k))
            < nat (max 1 (img_shape ! k - crop_shape ! k))"
      by (intro mod_less_divisor) simp
    then show "int (r k mod nat (max 1 (img_shape ! k - crop_shape ! k)))
                    < max 1 (img_shape ! k - crop_shape ! k)"
      by linarith
  qed
  have "\<forall>i<?n. 0 \<le> ?start ! i
              \<and> ?start ! i \<le> max 1 (img_shape ! i - crop_shape ! i)
              \<and> ?start ! i < max 1 (img_shape ! i - crop_shape ! i)
              \<and> (img_shape ! i \<le> crop_shape ! i \<longrightarrow> ?start ! i = 0)"
  proof (intro allI impI)
    fix i
    assume i: "i < ?n"
    have s: "?start ! i = int (r i mod nat (max 1 (img_shape ! i - crop_shape ! i)))"
      using i by simp
    have z: "img_shape ! i \<le> crop_shape ! i \<longrightarrow> ?start ! i = 0"
      unfolding s by (auto simp: max_def)
    show "0 \<le> ?start ! i
              \<and> ?start ! i \<le> max 1 (img_shape ! i - crop_shape ! i)
              \<and> ?start ! i < max 1 (img_shape ! i - crop_shape ! i)
              \<and> (img_shape ! i \<le> crop_shape ! i \<longrightarrow> ?start ! i = 0)"
      using bound [of i] z unfolding s by linarith
  qed
  then show "\<exists>start r'.
            random_crop_start img_shape crop_shape r = Inr (start, r')
          \<and> length start = length img_shape
          \<and> (\<forall>i<length img_shape.
                0 \<le> start ! i
              \<and> start ! i \<le> max 1 (img_shape ! i - crop_shape ! i)
              \<and> start ! i < max 1 (img_shape ! i - crop_shape ! i)
              \<and> (img_shape ! i \<le> crop_shape ! i \<longrightarrow> start ! i = 0))"
    using random_crop_start_eq [OF assms, of r] by (intro exI [of _ ?start]) simp
next
  fix v :: "int list"
  let ?n = "length img_shape"
  assume v: "length v = ?n
              \<and> (\<forall>i<?n. 0 \<le> v ! i \<and> v ! i < max 1 (img_shape ! i - crop_shape ! i))"
  let ?r0 = "\<lambda>k. nat (v ! k)"
  have "map (\<lambda>k. int (?r0 k mod nat (max 1 (img_shape ! k - crop_shape ! k)))) [0..<?n] = v"
    using v by (intro nth_equalityI) auto
  then show "\<exists>r0 r'. random_crop_start img_shape crop_shape r0 = Inr (v, r')"
    using random_crop_start_eq [OF assms, of ?r0] by auto
qed

theorem random_crop_start_in_range_witness:
  "(\<exists>start r'.
      random_crop_start [10, 3, 1] [4, 3, 5] id = Inr (start, r')
    \<and> length start = length [10, 3, 1 :: int]
    \<and> (\<forall>i<length [10, 3, 1 :: int].
          0 \<le> start ! i
        \<and> start ! i \<le> max 1 ([10, 3, 1] ! i - [4, 3, 5] ! i)
        \<and> start ! i < max 1 ([10, 3, 1] ! i - [4, 3, 5] ! i)
        \<and> ([10, 3, 1] ! i \<le> [4, 3, 5 :: int] ! i \<longrightarrow> start ! i = 0)))
   \<and> (\<exists>r0 r'. random_crop_start [10, 3, 1] [4, 3, 5] r0 = Inr ([5, 0, 0], r'))"
proof -
  have h: "length [4, 3, 5 :: int] = length [10, 3, 1 :: int]"
    by simp
  have v: "length [5, 0, 0 :: int] = length [10, 3, 1 :: int]
         \<and> (\<forall>i<length [10, 3, 1 :: int].
               0 \<le> [5, 0, 0 :: int] ! i
             \<and> [5, 0, 0] ! i < max 1 ([10, 3, 1] ! i - [4, 3, 5 :: int] ! i))"
    by (simp add: less_Suc_eq nth_Cons')
  show ?thesis
    using random_crop_start_in_range [OF h, of id] v by blast
qed

section \<open>Centered padding\<close>

lemma keep_positive: "x * (if 0 < x then 1 else 0) = max 0 (x::int)"
  by (simp add: max_def)

lemma centered_pad_widths_eq:
  assumes "length final_size = length img_shape"
  shows "centered_pad_widths img_shape final_size =
           Inr ((0, 0) #
                map2 (\<lambda>n f. (max 0 ((f - n) div 2), max 0 (f - (n + max 0 ((f - n) div 2)))))
                     img_shape final_size)"
proof -
  let ?start = "map2 (\<lambda>n f. max 0 ((f - n) div 2)) img_shape final_size"
  let ?stop = "map2 (\<lambda>n f. max 0 (f - (n + max 0 ((f - n) div 2)))) img_shape final_size"
  have d: "np_op2 (-) final_size img_shape = Inr (map2 (-) final_size img_shape)"
    using assms by (simp add: np_op2_same_length)
  have st: "map (\<lambda>x. x * (if 0 < x then 1 else 0))
              (map (\<lambda>x. x div 2) (map2 (-) final_size img_shape)) = ?start"
    using assms by (intro nth_equalityI) (simp_all add: keep_positive)
  have s: "np_op2 (+) img_shape ?start = Inr (map2 (+) img_shape ?start)"
    using assms by (simp add: np_op2_same_length)
  have e: "np_op2 (-) final_size (map2 (+) img_shape ?start) =
             Inr (map2 (-) final_size (map2 (+) img_shape ?start))"
    using assms by (simp add: np_op2_same_length)
  have en: "map (\<lambda>x. x * (if 0 < x then 1 else 0))
              (map2 (-) final_size (map2 (+) img_shape ?start)) = ?stop"
    using assms by (intro nth_equalityI) (simp_all add: keep_positive)
  have z: "zip ?start ?stop =
           map2 (\<lambda>n f. (max 0 ((f - n) div 2), max 0 (f - (n + max 0 ((f - n) div 2)))))
                img_shape final_size"
    using assms by (intro nth_equalityI) simp_all
  have l: "length ?start = length ?stop"
    by simp
  show ?thesis
    unfolding centered_pad_widths_def d bindE_Inr Let_def st s e en
    using l z by simp
qed

lemma np_pad_per_axis:
  assumes "length pad = length (shape a)" and "\<forall>p\<in>set pad. 0 \<le> fst p \<and> 0 \<le> snd p"
  shows "np_pad a pad cval =
           Inr \<lparr>shape = map2 (+) (map2 (+) (map (\<lambda>p. nat (fst p)) pad) (shape a))
                              (map (\<lambda>p. nat (snd p)) pad),
                item = (\<lambda>i. if list_all2 (\<lambda>bn j. fst bn \<le> j \<and> j < fst bn + snd bn)
                                  (zip (map (\<lambda>p. nat (fst p)) pad) (shape a)) i
                             then item a (map2 (-) i (map (\<lambda>p. nat (fst p)) pad)) else cval)\<rparr>"
proof -
  have "\<not> list_ex (\<lambda>p. fst p < 0 \<or> snd p < 0) pad"
    using assms(2) by (fastforce simp: list_ex_iff)
  then show ?thesis
    using assms(1) by (simp add: np_pad_def Let_def)
qed


lemma pad_axis_sum:
  fixes n f :: int
  assumes "0 \<le> n"
  shows "n \<le> f \<Longrightarrow>
           int (nat (max 0 ((f - n) div 2)) + nat n
                + nat (max 0 (f - (n + max 0 ((f - n) div 2))))) = f"
    and "f < n \<Longrightarrow> max 0 ((f - n) div 2) = 0"
    and "f < n \<Longrightarrow> max 0 (f - (n + max 0 ((f - n) div 2))) = 0"
  using assms by (auto simp: max_def)

lemma centered_pad_unfold:
  fixes img :: "('a::zero) ndarray"
  assumes sh: "shape img = c # sp" and len: "length final_size = length sp"
  defines "pad \<equiv> (0, 0) #
             map2 (\<lambda>n f. (max 0 ((f - n) div 2), max 0 (f - (n + max 0 ((f - n) div 2)))))
                  (map int sp) final_size"
  defines "off \<equiv> map (\<lambda>p. nat (fst p)) pad"
  defines "out \<equiv> \<lparr>shape = map2 (+) (map2 (+) off (shape img)) (map (\<lambda>p. nat (snd p)) pad),
                   item = (\<lambda>i. if list_all2 (\<lambda>bn j. fst bn \<le> j \<and> j < fst bn + snd bn)
                                     (zip off (shape img)) i
                                then item img (map2 (-) i off) else 0)\<rparr>"
  shows "centered_pad_widths (map int (tl (shape img))) final_size = Inr pad"
    and "np_pad img pad 0 = Inr out"
    and "length pad = Suc (length sp)"
proof -
  show w: "centered_pad_widths (map int (tl (shape img))) final_size = Inr pad"
    using centered_pad_widths_eq [of final_size "map int sp"] len
    by (simp add: sh pad_def)
  show l: "length pad = Suc (length sp)"
    using len by (simp add: pad_def)
  have nn: "\<forall>p\<in>set pad. 0 \<le> fst p \<and> 0 \<le> snd p"
    by (auto simp: pad_def in_set_zip)
  show "np_pad img pad 0 = Inr out"
    using np_pad_per_axis [of pad img 0] l nn
    unfolding out_def off_def by (simp add: sh)
qed


text \<open>
  C2. For an image with a channel axis and a target with one size per spatial axis,
  \<^verbatim>\<open>centered_pad\<close> (both copies, in \<^verbatim>\<open>semseg_batchgen.py\<close> and \<^verbatim>\<open>utils.py\<close>) returns without
  error; the channel axis is unchanged; on an axis where target \<open>\<ge>\<close> source the output size
  is the target; on an axis where source \<open>>\<close> target the size is the source and the content
  is not shifted; the output holds the input at the offsets \<open>off\<close> and 0 everywhere else.
\<close>

theorem centered_pad_shape_and_fill:
  fixes img :: "('a::zero) ndarray"
  assumes sh: "shape img = c # sp" and len: "length final_size = length sp"
  shows "\<exists>out off.
           centered_pad img final_size (None :: ('b::zero) ndarray option) = Inr (out, None)
         \<and> utils_centered_pad img final_size (None :: 'b ndarray option) = Inr (out, None)
         \<and> length (shape out) = Suc (length sp) \<and> length off = Suc (length sp)
         \<and> shape out ! 0 = c \<and> off ! 0 = 0
         \<and> (\<forall>i<length sp.
               (int (sp ! i) \<le> final_size ! i \<longrightarrow>
                  int (shape out ! Suc i) = final_size ! i
                \<and> int (off ! Suc i) = (final_size ! i - int (sp ! i)) div 2)
             \<and> (final_size ! i < int (sp ! i) \<longrightarrow>
                  shape out ! Suc i = sp ! i \<and> off ! Suc i = 0))
         \<and> (\<forall>j. length j = Suc (length sp) \<longrightarrow>
               item out j =
                 (if \<forall>i<Suc (length sp). off ! i \<le> j ! i \<and> j ! i < off ! i + shape img ! i
                  then item img (map2 (-) j off) else 0))"
proof -
  define pad where "pad = (0, 0) #
             map2 (\<lambda>n f. (max 0 ((f - n) div 2), max 0 (f - (n + max 0 ((f - n) div 2)))))
                  (map int sp) final_size"
  define off where "off = map (\<lambda>p. nat (fst p)) pad"
  define out where "out = \<lparr>shape = map2 (+) (map2 (+) off (shape img)) (map (\<lambda>p. nat (snd p)) pad),
                   item = (\<lambda>i. if list_all2 (\<lambda>bn j. fst bn \<le> j \<and> j < fst bn + snd bn)
                                     (zip off (shape img)) i
                                then item img (map2 (-) i off) else 0)\<rparr>"
  have w: "centered_pad_widths (map int (tl (shape img))) final_size = Inr pad"
    and p: "np_pad img pad 0 = Inr out"
    and lp: "length pad = Suc (length sp)"
    using centered_pad_unfold [OF sh len] unfolding pad_def off_def out_def by blast+
  have c1: "centered_pad img final_size (None :: 'b ndarray option) = Inr (out, None)"
    by (simp add: centered_pad_def w p)
  have c2: "utils_centered_pad img final_size (None :: 'b ndarray option) = Inr (out, None)"
    by (simp add: utils_centered_pad_def w p)
  have lo: "length off = Suc (length sp)"
    by (simp add: off_def lp)
  have ls: "length (shape out) = Suc (length sp)"
    by (simp add: out_def lo lp sh)
  have s0: "shape out ! 0 = c" and o0: "off ! 0 = 0"
    by (simp_all add: out_def off_def pad_def sh)
  have ax: "\<forall>i<length sp.
               (int (sp ! i) \<le> final_size ! i \<longrightarrow>
                  int (shape out ! Suc i) = final_size ! i
                \<and> int (off ! Suc i) = (final_size ! i - int (sp ! i)) div 2)
             \<and> (final_size ! i < int (sp ! i) \<longrightarrow>
                  shape out ! Suc i = sp ! i \<and> off ! Suc i = 0)"
  proof (intro allI impI)
    fix i
    assume i: "i < length sp"
    let ?n = "int (sp ! i)" and ?f = "final_size ! i"
    have so: "shape out ! Suc i =
                nat (max 0 ((?f - ?n) div 2)) + sp ! i
                + nat (max 0 (?f - (?n + max 0 ((?f - ?n) div 2))))"
      using i len by (simp add: out_def off_def pad_def sh)
    have oi: "off ! Suc i = nat (max 0 ((?f - ?n) div 2))"
      using i len by (simp add: off_def pad_def)
    have n0: "0 \<le> ?n"
      by simp
    show "(?n \<le> ?f \<longrightarrow> int (shape out ! Suc i) = ?f \<and> int (off ! Suc i) = (?f - ?n) div 2)
        \<and> (?f < ?n \<longrightarrow> shape out ! Suc i = sp ! i \<and> off ! Suc i = 0)"
      using pad_axis_sum [OF n0, of ?f] unfolding so oi by auto
  qed
  have it: "\<forall>j. length j = Suc (length sp) \<longrightarrow>
               item out j =
                 (if \<forall>i<Suc (length sp). off ! i \<le> j ! i \<and> j ! i < off ! i + shape img ! i
                  then item img (map2 (-) j off) else 0)"
  proof (intro allI impI)
    fix j :: "nat list"
    assume j: "length j = Suc (length sp)"
    have "list_all2 (\<lambda>bn j. fst bn \<le> j \<and> j < fst bn + snd bn) (zip off (shape img)) j
            \<longleftrightarrow> (\<forall>i<Suc (length sp). off ! i \<le> j ! i \<and> j ! i < off ! i + shape img ! i)"
      using j lo sh by (simp add: list_all2_conv_all_nth)
    then show "item out j =
                 (if \<forall>i<Suc (length sp). off ! i \<le> j ! i \<and> j ! i < off ! i + shape img ! i
                  then item img (map2 (-) j off) else 0)"
      by (simp add: out_def)
  qed
  show ?thesis
    using c1 c2 ls lo s0 o0 ax it by blast
qed


theorem centered_pad_shape_and_fill_witness:
  "\<exists>out. centered_pad img_3x5 [6, 4] (None :: int ndarray option) = Inr (out, None)
        \<and> utils_centered_pad img_3x5 [6, 4] (None :: int ndarray option) = Inr (out, None)
        \<and> shape out = [1, 6, 5]
        \<and> item out [0, 0, 2] = 0 \<and> item out [0, 1, 2] = 3 \<and> item out [0, 3, 4] = 25
        \<and> item out [0, 4, 0] = 0"
proof -
  have h1: "shape img_3x5 = 1 # [3, 5]"
    by (simp add: img_3x5_def)
  have h2: "length [6, 4 :: int] = length [3, 5 :: nat]"
    by simp
  obtain out off where
    c1: "centered_pad img_3x5 [6, 4] (None :: int ndarray option) = Inr (out, None)"
    and c2: "utils_centered_pad img_3x5 [6, 4] (None :: int ndarray option) = Inr (out, None)"
    and ls: "length (shape out) = Suc (length [3, 5 :: nat])"
    and lo: "length off = Suc (length [3, 5 :: nat])"
    and s0: "shape out ! 0 = 1" and o0: "off ! 0 = 0"
    and ax: "\<forall>i<length [3, 5 :: nat].
               (int ([3, 5] ! i) \<le> [6, 4] ! i \<longrightarrow>
                  int (shape out ! Suc i) = [6, 4] ! i
                \<and> int (off ! Suc i) = ([6, 4] ! i - int ([3, 5] ! i)) div 2)
             \<and> ([6, 4] ! i < int ([3, 5] ! i) \<longrightarrow>
                  shape out ! Suc i = [3, 5] ! i \<and> off ! Suc i = 0)"
    and it: "\<forall>j. length j = Suc (length [3, 5 :: nat]) \<longrightarrow>
               item out j =
                 (if \<forall>i<Suc (length [3, 5 :: nat]).
                       off ! i \<le> j ! i \<and> j ! i < off ! i + shape img_3x5 ! i
                  then item img_3x5 (map2 (-) j off) else 0)"
    using centered_pad_shape_and_fill [OF h1 h2, where 'b = int] by blast
  have a0: "shape out ! Suc 0 = 6 \<and> off ! Suc 0 = 1"
    using ax [rule_format, of 0] by simp
  have a1: "shape out ! Suc (Suc 0) = 5 \<and> off ! Suc (Suc 0) = 0"
    using ax [rule_format, of 1] by simp
  have so: "shape out = [1, 6, 5]"
    using ls s0 a0 a1 by (intro nth_equalityI) (auto simp: less_Suc_eq nth_Cons')
  have of: "off = [0, 1, 0]"
    using lo o0 a0 a1 by (intro nth_equalityI) (auto simp: less_Suc_eq nth_Cons')
  have items: "item out [0, 0, 2] = 0 \<and> item out [0, 1, 2] = 3 \<and> item out [0, 3, 4] = 25
        \<and> item out [0, 4, 0] = 0"
    using it [rule_format, of "[0, 0, 2]"] it [rule_format, of "[0, 1, 2]"]
      it [rule_format, of "[0, 3, 4]"] it [rule_format, of "[0, 4, 0]"]
    unfolding of by (simp add: img_3x5_def less_Suc_eq nth_Cons' all_conj_distrib)
  show ?thesis
    using c1 c2 so items by blast
qed

section \<open>The location-forced crop\<close>

lemma located_crop_start_last_pixel:
  "located_crop_start [10] [9] [4] [0] r = Inr ([5], rng_drop 1 r)"
  by (simp add: located_crop_start_def np_op2_def np_broadcast_def np_random_randint_def)

text \<open>
  C3 fails on the code, against the docstring of \<^verbatim>\<open>located_crop\<close> (the location voxel is to
  lie in the crop). On a row of ten pixels, with the anchor on the last pixel 9, crop
  size 4 and margin 0, \<open>lower_bound\<close> is \<open>9 - 4 = 5\<close> and \<open>higher_bound\<close> is 6, so every
  random stream gives \<open>start = 5\<close>: the window is \<open>[5, 9)\<close>, the anchor 9 is not in
  \<open>[start + margin, start + target - margin)\<close>, the cropped image holds the pixels 5 to 8 and
  the cropped mask has no foreground left.
\<close>

theorem located_crop_misses_anchor:
  "\<exists>a b. located_crop_start [10] [9] [4] [0] r = Inr ([5], rng_drop 1 r)
        \<and> \<not> (5 + 0 \<le> (9::int) \<and> (9::int) < 5 + 4 - 0)
        \<and> located_crop img_row msk_row [9] [4] [0] r = Inr ((a, b), rng_drop 1 r)
        \<and> shape a = [1, 4] \<and> shape b = [1, 4]
        \<and> map (\<lambda>x. item a [0, x]) [0, 1, 2, 3] = [5, 6, 7, 8]
        \<and> map (\<lambda>x. item b [0, x]) [0, 1, 2, 3] = [0, 0, 0, 0]"
  by (simp add: located_crop_def located_crop_start_last_pixel np_op2_def np_broadcast_def
      img_row_def msk_row_def np_getitem_def crop_idx_def py_slice_def py_clamp_def)

theorem located_crop_misses_anchor_witness:
  "\<exists>a b. located_crop_start [10] [9] [4] [0] id = Inr ([5], rng_drop 1 id)
        \<and> located_crop img_row msk_row [9] [4] [0] id = Inr ((a, b), rng_drop 1 id)
        \<and> shape a = [1, 4]
        \<and> map (\<lambda>x. item a [0, x]) [0, 1, 2, 3] = [5, 6, 7, 8]
        \<and> map (\<lambda>x. item b [0, x]) [0, 1, 2, 3] = [0, 0, 0, 0]"
proof -
  obtain a b where
    "located_crop_start [10] [9] [4] [0] id = Inr ([5], rng_drop 1 id)"
    "located_crop img_row msk_row [9] [4] [0] id = Inr ((a, b), rng_drop 1 id)"
    "shape a = [1, 4]"
    "map (\<lambda>x. item a [0, x]) [0, 1, 2, 3] = [5, 6, 7, 8]"
    "map (\<lambda>x. item b [0, x]) [0, 1, 2, 3] = [0, 0, 0, 0]"
    using located_crop_misses_anchor [of id] by auto
  then show ?thesis
    by (intro exI [of _ a] exI [of _ b]) simp
qed

section \<open>Crop, then pad\<close>





















section \<open>The foreground rate in batch mode\<close>

lemma argwhere_msk_line: "argwhere_one msk_line 0 = [[0, 0, 9]]"
  by code_simp

lemma random_crop_line:
  "\<exists>a b r'. random_crop img_line msk_line [1, 1, 4] (rng_drop 1 id) = Inr ((a, b), r')
     \<and> shape a = [1, 1, 1, 4] \<and> shape b = [1, 1, 1, 4] \<and> line_of a = [3, 4, 5, 6]"
  by (simp add: random_crop_def random_crop_start_def np_op2_def np_broadcast_def
      np_random_randint_def img_line_def msk_line_def np_getitem_def crop_idx_def py_slice_def
      py_clamp_def rng_drop_def line_of_def upt_rec)

lemma located_crop_line:
  "\<exists>a b r'. located_crop img_line msk_line [0, 0, 9] [1, 1, 4] [0, 0, 0] r = Inr ((a, b), r')
     \<and> shape a = [1, 1, 1, 4] \<and> shape b = [1, 1, 1, 4] \<and> line_of a = [5, 6, 7, 8]"
proof -
  have "\<exists>r'. located_crop_start [1, 1, 10] [0, 0, 9] [1, 1, 4] [0, 0, 0] r = Inr ([0, 0, 5], r')"
    by (simp add: located_crop_start_def np_op2_def np_broadcast_def np_random_randint_def upt_rec)
  then obtain r' where
    l: "located_crop_start [1, 1, 10] [0, 0, 9] [1, 1, 4] [0, 0, 0] r = Inr ([0, 0, 5], r')"
    by blast
  have i: "map int (tl (shape img_line)) = [1, 1, 10]"
    by (simp add: img_line_def)
  have "located_crop img_line msk_line [0, 0, 9] [1, 1, 4] [0, 0, 0] r =
          bindE (np_getitem img_line (crop_idx 1 [0, 0, 5] [1, 1, 9])) (\<lambda>crop_img.
          bindE (np_getitem msk_line (crop_idx 1 [0, 0, 5] [1, 1, 9])) (\<lambda>crop_msk.
            Inr ((crop_img, crop_msk), r')))"
    unfolding located_crop_def i l
    by (simp add: np_op2_def np_broadcast_def img_line_def)
  then show ?thesis
    by (simp add: img_line_def msk_line_def np_getitem_def crop_idx_def py_slice_def
        py_clamp_def line_of_def upt_rec)
qed

lemma foreground_crop_line:
  "\<exists>a b r'. foreground_crop img_line msk_line [1, 1, 4] default_fg_margin (rng_drop 1 id)
               = Inr ((a, b), r')
     \<and> shape a = [1, 1, 1, 4] \<and> shape b = [1, 1, 1, 4] \<and> line_of a = [5, 6, 7, 8]"
proof -
  have s: "shape msk_line = [1, 1, 1, 10]"
    by (simp add: msk_line_def)
  have "foreground_crop img_line msk_line [1, 1, 4] default_fg_margin (rng_drop 1 id) =
          located_crop img_line msk_line [0, 0, 9] [1, 1, 4] [0, 0, 0]
            (rng_drop 1 (rng_drop 1 (rng_drop 1 id)))"
    by (simp add: foreground_crop_def s argwhere_msk_line default_fg_margin_def Let_def)
  then show ?thesis
    using located_crop_line [of "rng_drop 1 (rng_drop 1 (rng_drop 1 id))"] by simp
qed


lemma random_random_id: "random_random id = (0, rng_drop 1 id)"
  by (simp add: random_random_def)

lemma no_pad_line:
  fixes a b :: "int ndarray"
  assumes "shape a = [1, 1, 1, 4]"
  shows "bindE (np_op2 (-) (map int (tl (shape a))) [1, 1, 4]) (\<lambda>d.
           if list_ex (\<lambda>x. x \<noteq> 0) d
           then bindE (centered_pad a [1, 1, 4] (Some b)) (\<lambda>(pad_img, pad_msk).
                  case pad_msk of
                    None \<Rightarrow> Inl TypeError
                  | Some m \<Rightarrow> Inr ((pad_img, m), r2))
           else Inr ((a, b), r2)) = Inr ((a, b), r2)"
  using assms by (simp add: np_op2_def np_broadcast_def)

lemma single_line:
  "\<exists>a b r'. random_crop_pad_single img_line msk_line [1, 1, 4] rate default_fg_margin id
               = Inr ((a, b), r')
     \<and> shape a = [1, 1, 1, 4] \<and> shape b = [1, 1, 1, 4]
     \<and> line_of a = (if 0 < rate then [5, 6, 7, 8] else [3, 4, 5, 6])"
proof (cases "0 < rate")
  case True
  obtain a b r' where
    c: "foreground_crop img_line msk_line [1, 1, 4] default_fg_margin (rng_drop 1 id)
          = Inr ((a, b), r')"
    and s: "shape a = [1, 1, 1, 4]" "shape b = [1, 1, 1, 4]" and l: "line_of a = [5, 6, 7, 8]"
    using foreground_crop_line by blast
  have "random_crop_pad_single img_line msk_line [1, 1, 4] rate default_fg_margin id
          = Inr ((a, b), r')"
    unfolding random_crop_pad_single_def random_random_id prod.case
    using True c no_pad_line [OF s(1), of b r'] by simp
  then show ?thesis
    using True s l by auto
next
  case False
  obtain a b r' where
    c: "random_crop img_line msk_line [1, 1, 4] (rng_drop 1 id) = Inr ((a, b), r')"
    and s: "shape a = [1, 1, 1, 4]" "shape b = [1, 1, 1, 4]" and l: "line_of a = [3, 4, 5, 6]"
    using random_crop_line by blast
  have "random_crop_pad_single img_line msk_line [1, 1, 4] rate default_fg_margin id
          = Inr ((a, b), r')"
    unfolding random_crop_pad_single_def random_random_id prod.case
    using False c no_pad_line [OF s(1), of b r'] by simp
  then show ?thesis
    using False s l by auto
qed

lemma batch_line:
  "\<exists>a b r'. random_crop_pad (ArrList [img_line]) (ArrList [msk_line]) [1, 1, 4] rate margin id
               = Inr ((a, b), r')
     \<and> shape a = [1, 1, 1, 1, 4] \<and> batch_line_of a = [5, 6, 7, 8]"
proof -
  obtain a b r' where
    c: "random_crop_pad_single img_line msk_line [1, 1, 4] default_fg_rate default_fg_margin id
          = Inr ((a, b), r')"
    and s: "shape a = [1, 1, 1, 4]" "shape b = [1, 1, 1, 4]"
    and l: "line_of a = (if 0 < default_fg_rate then [5, 6, 7, 8] else [3, 4, 5, 6])"
    using single_line [of default_fg_rate] by blast
  have l': "line_of a = [5, 6, 7, 8]"
    using l by (simp add: default_fg_rate_def)
  let ?a = "\<lparr>shape = length [a] # shape a,
             item = (\<lambda>i. case i of [] \<Rightarrow> 0 | k # j \<Rightarrow> item ([a] ! k) j)\<rparr>"
  let ?b = "\<lparr>shape = length [b] # shape b,
             item = (\<lambda>i. case i of [] \<Rightarrow> 0 | k # j \<Rightarrow> item ([b] ! k) j)\<rparr>"
  have "random_crop_pad (ArrList [img_line]) (ArrList [msk_line]) [1, 1, 4] rate margin id
          = Inr ((?a, ?b), r')"
    by (simp add: random_crop_pad_def sample_getitem_def c np_array_def)
  moreover have "batch_line_of ?a = line_of a"
    by (simp add: batch_line_of_def line_of_def s)
  ultimately show ?thesis
    using l' s by (intro exI [of _ ?a] exI [of _ ?b] exI [of _ r']) simp
qed

text \<open>
  C10. On a list of images the result of \<^verbatim>\<open>random_crop_pad\<close> does not depend on the
  \<^verbatim>\<open>fg_rate\<close> and \<^verbatim>\<open>fg_margin\<close> it is given: it is the result at the defaults 0.33 and
  zeros, and so the transform's configured \<^verbatim>\<open>fg_rate\<close> has no effect on list input. On a
  single array the transform passes its \<^verbatim>\<open>fg_rate\<close> to the crop. On the example volume with
  the random stream \<open>id\<close> (first draw 0): as a single sample, rate 0 gives the random crop
  \<open>[3, 4, 5, 6]\<close> and rate 1 the foreground crop \<open>[5, 6, 7, 8]\<close>; as a batch of one, the
  transform configured with rate 0 still gives the foreground crop.
\<close>

theorem batch_crop_ignores_fg_rate:
  "random_crop_pad (ArrList xs) msk final_size rate margin r
     = random_crop_pad (ArrList xs) msk final_size default_fg_rate default_fg_margin r
   \<and> RandomCropAndPadTransform_call t (ArrList xs) msk r
     = RandomCropAndPadTransform_call (t\<lparr>fg_rate := rate\<rparr>) (ArrList xs) msk r
   \<and> RandomCropAndPadTransform_call t (Arr x) (Arr m) r
     = random_crop_pad_single x m (crop_size t) (fg_rate t) default_fg_margin r
   \<and> (\<exists>a b r'. RandomCropAndPadTransform_call \<lparr>crop_size = [1, 1, 4], fg_rate = 0\<rparr>
                   (Arr img_line) (Arr msk_line) id = Inr ((a, b), r')
              \<and> line_of a = [3, 4, 5, 6])
   \<and> (\<exists>a b r'. RandomCropAndPadTransform_call \<lparr>crop_size = [1, 1, 4], fg_rate = 1\<rparr>
                   (Arr img_line) (Arr msk_line) id = Inr ((a, b), r')
              \<and> line_of a = [5, 6, 7, 8])
   \<and> (\<exists>a b r'. RandomCropAndPadTransform_call \<lparr>crop_size = [1, 1, 4], fg_rate = 0\<rparr>
                   (ArrList [img_line]) (ArrList [msk_line]) id = Inr ((a, b), r')
              \<and> batch_line_of a = [5, 6, 7, 8])"
proof (intro conjI)
  show "random_crop_pad (ArrList xs) msk final_size rate margin r
     = random_crop_pad (ArrList xs) msk final_size default_fg_rate default_fg_margin r"
    by (simp add: random_crop_pad_def)
  show "RandomCropAndPadTransform_call t (ArrList xs) msk r
     = RandomCropAndPadTransform_call (t\<lparr>fg_rate := rate\<rparr>) (ArrList xs) msk r"
    by (simp add: RandomCropAndPadTransform_call_def random_crop_pad_def)
  show "RandomCropAndPadTransform_call t (Arr x) (Arr m) r
     = random_crop_pad_single x m (crop_size t) (fg_rate t) default_fg_margin r"
    by (simp add: RandomCropAndPadTransform_call_def random_crop_pad_def)
  show "\<exists>a b r'. RandomCropAndPadTransform_call \<lparr>crop_size = [1, 1, 4], fg_rate = 0\<rparr>
                   (Arr img_line) (Arr msk_line) id = Inr ((a, b), r')
              \<and> line_of a = [3, 4, 5, 6]"
    using single_line [of 0] by (auto simp: RandomCropAndPadTransform_call_def random_crop_pad_def)
  show "\<exists>a b r'. RandomCropAndPadTransform_call \<lparr>crop_size = [1, 1, 4], fg_rate = 1\<rparr>
                   (Arr img_line) (Arr msk_line) id = Inr ((a, b), r')
              \<and> line_of a = [5, 6, 7, 8]"
    using single_line [of 1] by (auto simp: RandomCropAndPadTransform_call_def random_crop_pad_def)
  show "\<exists>a b r'. RandomCropAndPadTransform_call \<lparr>crop_size = [1, 1, 4], fg_rate = 0\<rparr>
                   (ArrList [img_line]) (ArrList [msk_line]) id = Inr ((a, b), r')
              \<and> batch_line_of a = [5, 6, 7, 8]"
    using batch_line [of 0 default_fg_margin]
    by (auto simp: RandomCropAndPadTransform_call_def)
qed

theorem batch_crop_ignores_fg_rate_witness:
  "random_crop_pad (ArrList [img_line]) (ArrList [msk_line]) [1, 1, 4] 1 [0, 0, 0] id
     = random_crop_pad (ArrList [img_line]) (ArrList [msk_line]) [1, 1, 4] default_fg_rate
         default_fg_margin id
   \<and> RandomCropAndPadTransform_call \<lparr>crop_size = [1, 1, 4], fg_rate = 0\<rparr>
        (ArrList [img_line]) (ArrList [msk_line]) id
     = RandomCropAndPadTransform_call \<lparr>crop_size = [1, 1, 4], fg_rate = 1\<rparr>
        (ArrList [img_line]) (ArrList [msk_line]) id"
  using batch_crop_ignores_fg_rate
    [where xs = "[img_line]" and msk = "ArrList [msk_line]" and final_size = "[1, 1, 4]"
       and rate = 1 and margin = "[0, 0, 0]" and r = id
       and t = "\<lparr>crop_size = [1, 1, 4], fg_rate = 0\<rparr>" and x = img_line and m = msk_line]
  by simp

section \<open>Deep-supervision downsampling\<close>















end
